theory Spec2Isabelle
  imports Complex_Main "HOL-Library.Char_ord" "HOL-Library.List_Lexorder" "HOL-Library.Product_Lexorder"
begin

section \<open>Errors raised by the handlers\<close>

text \<open>
  Every \<^verbatim>\<open>throw new Error(...)\<close> of the source, and every failure of a backend call, is a
  value of \<open>error\<close>; a handler that can raise returns \<open>error + result\<close> (\<open>Inl\<close> the
  error). The constructor stands for the error object; its message is the string the
  source builds at the \<^verbatim>\<open>throw\<close>.
\<close>

datatype errno = ENOENT | ENOTDIR | EISDIR | EACCES | EEXIST

datatype error =
    UnknownTool string      \<comment> \<open>\<^verbatim>\<open>Error(`Unknown tool: ${name}`)\<close>\<close>
  | TypeError string        \<comment> \<open>a \<^verbatim>\<open>TypeError\<close>: a call or a property read on \<^verbatim>\<open>undefined\<close>\<close>
  | EntityNotFound nat      \<comment> \<open>\<^verbatim>\<open>Error(`Entity not found: ${id}`)\<close>\<close>
  | EndpointNotFound        \<comment> \<open>\<^verbatim>\<open>Error('One or both entities not found')\<close>\<close>
  | NoteNotFound string     \<comment> \<open>\<^verbatim>\<open>Error(`Note not found: ${filename}`)\<close>\<close>
  | GraphUnavailable        \<comment> \<open>\<^verbatim>\<open>getSession()\<close> or \<^verbatim>\<open>session.run\<close> rejects: no connection\<close>
  | ConstraintViolation     \<comment> \<open>the store refuses \<^verbatim>\<open>DELETE\<close> of a node that has relationships\<close>
  | FsError errno           \<comment> \<open>a rejected \<^verbatim>\<open>fs\<close> promise, with its \<^verbatim>\<open>code\<close>\<close>
  | LinkFailed error        \<comment> \<open>\<^verbatim>\<open>Error(`Failed to create link: ${retryError.message}`)\<close>\<close>

section \<open>Strings as the handlers use them\<close>

text \<open>
  Strings are lists of characters. The operations below are the \<^verbatim>\<open>String.prototype\<close>
  methods the handlers call, on the ASCII range: \<^verbatim>\<open>toUpperCase\<close> and the \<^verbatim>\<open>i\<close> flag
  of a regular expression fold the letters \<open>a\<close> to \<open>z\<close> only, and \<^verbatim>\<open>trim\<close> removes space,
  tab, line feed, vertical tab, form feed and carriage return.
\<close>

definition nl :: string where
  "nl = [CHR 0x0A]"

definition dquote :: string where
  "dquote = [CHR 0x22]"

definition lower_letters :: string where
  "lower_letters = ''abcdefghijklmnopqrstuvwxyz''"

definition upper_letters :: string where
  "upper_letters = ''ABCDEFGHIJKLMNOPQRSTUVWXYZ''"

definition to_upper :: "char \<Rightarrow> char" where
  "to_upper c = (case map_of (zip lower_letters upper_letters) c of Some u \<Rightarrow> u | None \<Rightarrow> c)"

definition to_lower :: "char \<Rightarrow> char" where
  "to_lower c = (case map_of (zip upper_letters lower_letters) c of Some l \<Rightarrow> l | None \<Rightarrow> c)"

definition toUpperCase :: "string \<Rightarrow> string" where
  "toUpperCase s = map to_upper s"

definition toLowerCase :: "string \<Rightarrow> string" where
  "toLowerCase s = map to_lower s"

primrec starts_with :: "string \<Rightarrow> string \<Rightarrow> bool" where
  "starts_with [] s = True"
| "starts_with (c # cs) s = (case s of [] \<Rightarrow> False | d # ds \<Rightarrow> c = d \<and> starts_with cs ds)"

definition ends_with :: "string \<Rightarrow> string \<Rightarrow> bool" where
  "ends_with p s = starts_with (rev p) (rev s)"

text \<open>\<^verbatim>\<open>s.indexOf(c)\<close> for a single character; \<open>None\<close> is the source's \<open>-1\<close>.\<close>

primrec index_of :: "char \<Rightarrow> string \<Rightarrow> nat option" where
  "index_of c [] = None"
| "index_of c (d # ds) = (if c = d then Some 0 else map_option Suc (index_of c ds))"

text \<open>The first position at which \<open>p\<close> occurs in \<open>s\<close>.\<close>

primrec index_of_sub :: "string \<Rightarrow> string \<Rightarrow> nat option" where
  "index_of_sub p [] = (if p = [] then Some 0 else None)"
| "index_of_sub p (c # cs) =
     (if starts_with p (c # cs) then Some 0 else map_option Suc (index_of_sub p cs))"

definition js_includes :: "string \<Rightarrow> string \<Rightarrow> bool" where
  "js_includes p s = (index_of_sub p s \<noteq> None)"

definition is_space :: "char \<Rightarrow> bool" where
  "is_space c = (c \<in> set [CHR 0x20, CHR 0x09, CHR 0x0A, CHR 0x0B, CHR 0x0C, CHR 0x0D])"

definition js_trim :: "string \<Rightarrow> string" where
  "js_trim s = rev (dropWhile is_space (rev (dropWhile is_space s)))"

text \<open>\<^verbatim>\<open>s.split(c)\<close>: never empty, the empty string splits into one empty string.\<close>

primrec js_split :: "char \<Rightarrow> string \<Rightarrow> string list" where
  "js_split c [] = [[]]"
| "js_split c (d # ds) =
     (if d = c then [] # js_split c ds
      else (case js_split c ds of [] \<Rightarrow> [[d]] | x # xs \<Rightarrow> (d # x) # xs))"

primrec js_join :: "string \<Rightarrow> string list \<Rightarrow> string" where
  "js_join sep [] = []"
| "js_join sep (x # xs) = (case xs of [] \<Rightarrow> x | _ # _ \<Rightarrow> x @ sep @ js_join sep xs)"

text \<open>\<^verbatim>\<open>s.slice(1, -1)\<close>.\<close>

definition slice_inner :: "string \<Rightarrow> string" where
  "slice_inner s = butlast (tl s)"

text \<open>\<^verbatim>\<open>s.replace(/^"|"$/g, '')\<close>: one leading and one trailing double quote go.\<close>

definition strip_quotes :: "string \<Rightarrow> string" where
  "strip_quotes s =
     (let s1 = (if starts_with dquote s then tl s else s)
      in if ends_with dquote s1 then butlast s1 else s1)"

section \<open>Note store: front-matter\<close>

text \<open>
  A front-matter object is kept as an association list in insertion order, which is the
  order of \<^verbatim>\<open>Object.entries\<close>. Its values are the three kinds the parser produces:
  arrays of strings, booleans, strings.
\<close>

datatype fm_value = FmList "string list" | FmBool bool | FmStr string

type_synonym frontmatter = "(string \<times> fm_value) list"

text \<open>\<^verbatim>\<open>frontmatter[key] = value\<close>: an existing key keeps its place.\<close>

fun assign :: "string \<Rightarrow> fm_value \<Rightarrow> frontmatter \<Rightarrow> frontmatter" where
  "assign k v [] = [(k, v)]"
| "assign k v ((k', v') # kvs) = (if k = k' then (k, v) # kvs else (k', v') # assign k v kvs)"

definition parse_value :: "string \<Rightarrow> fm_value" where
  "parse_value v =
     (if starts_with ''['' v \<and> ends_with '']'' v
        then FmList (map (\<lambda>x. strip_quotes (js_trim x)) (js_split CHR '','' (slice_inner v)))
      else if v = ''true'' then FmBool True
      else if v = ''false'' then FmBool False
      else if starts_with dquote v \<and> ends_with dquote v then FmStr (slice_inner v)
      else FmStr v)"

definition parse_line :: "frontmatter \<Rightarrow> string \<Rightarrow> frontmatter" where
  "parse_line fm line =
     (case index_of CHR '':'' line of
        None \<Rightarrow> fm
      | Some colonIndex \<Rightarrow>
          if colonIndex > 0
          then assign (js_trim (take colonIndex line))
                 (parse_value (js_trim (drop (colonIndex + 1) line))) fm
          else fm)"

text \<open>
  The regular expression \<^verbatim>\<open>/^---\n([\s\S]*?)\n---\n([\s\S]*)$/\<close>: the text starts with the
  opening fence, the first group is lazy and so ends at the first closing fence after
  it, the second group is the rest. The result is the pair \<^verbatim>\<open>{frontmatter, body}\<close>,
  \<open>None\<close> for \<^verbatim>\<open>null\<close>.
\<close>

definition parseFrontmatter :: "string \<Rightarrow> frontmatter option \<times> string" where
  "parseFrontmatter text =
     (if starts_with (''---'' @ nl) text
      then (let rest = drop 4 text
            in case index_of_sub (nl @ ''---'' @ nl) rest of
                 None \<Rightarrow> (None, text)
               | Some i \<Rightarrow>
                   (Some (foldl parse_line [] (js_split CHR 0x0A (take i rest))),
                    js_trim (drop (i + 5) rest)))
      else (None, text))"

fun fm_line :: "string \<times> fm_value \<Rightarrow> string" where
  "fm_line (k, FmList vs) = k @ '': ['' @ js_join '', '' (map (\<lambda>v. dquote @ v @ dquote) vs) @ '']''"
| "fm_line (k, FmBool b) = k @ '': '' @ (if b then ''true'' else ''false'')"
| "fm_line (k, FmStr v) = k @ '': '' @ dquote @ v @ dquote"

definition buildFrontmatter :: "frontmatter option \<Rightarrow> string" where
  "buildFrontmatter fm =
     (case fm of
        None \<Rightarrow> []
      | Some [] \<Rightarrow> []
      | Some (kv # kvs) \<Rightarrow> js_join nl ([''---''] @ map fm_line (kv # kvs) @ [''---'', []]))"

section \<open>Note store: the file system under the vault\<close>

text \<open>
  The disk is a tree. A directory lists its entries in the order \<^verbatim>\<open>readdir\<close> reports
  them. \<open>NoAccessFile\<close> and \<open>NoAccessDir\<close> are a file and a directory the process may
  not open. A path is the list of its segments below the root \<^verbatim>\<open>/\<close>.
\<close>

datatype node = File string | Dir "(string \<times> node) list" | NoAccessFile | NoAccessDir

fun put_entry :: "string \<Rightarrow> node \<Rightarrow> (string \<times> node) list \<Rightarrow> (string \<times> node) list" where
  "put_entry k v [] = [(k, v)]"
| "put_entry k v ((k', v') # es) =
     (if k = k' then (k, v) # es else (k', v') # put_entry k v es)"

definition remove_entry :: "string \<Rightarrow> (string \<times> node) list \<Rightarrow> (string \<times> node) list" where
  "remove_entry k es = filter (\<lambda>(k', _). k' \<noteq> k) es"

text \<open>
  \<^verbatim>\<open>path.join\<close> concatenates with a separator and normalises: empty segments and
  \<^verbatim>\<open>.\<close> disappear, \<^verbatim>\<open>..\<close> removes the segment before it and stays at the root when there
  is none. The vault path is absolute (\<^verbatim>\<open>/vault\<close> unless the environment says otherwise).
\<close>

definition norm_step :: "string list \<Rightarrow> string \<Rightarrow> string list" where
  "norm_step stack seg =
     (if seg = [] \<or> seg = ''.'' then stack
      else if seg = ''..'' then butlast stack
      else stack @ [seg])"

definition path_join :: "string \<Rightarrow> string \<Rightarrow> string list" where
  "path_join a b = foldl norm_step [] (js_split CHR ''/'' (a @ ''/'' @ b))"

definition path_string :: "string list \<Rightarrow> string" where
  "path_string segs = (if segs = [] then ''/'' else concat (map (\<lambda>s. ''/'' @ s) segs))"

definition dirname :: "string list \<Rightarrow> string list" where
  "dirname segs = butlast segs"

fun lookup_path :: "node \<Rightarrow> string list \<Rightarrow> errno + node" where
  "lookup_path n [] = Inr n"
| "lookup_path (Dir es) (s # ss) =
     (case map_of es s of None \<Rightarrow> Inl ENOENT | Some c \<Rightarrow> lookup_path c ss)"
| "lookup_path NoAccessDir (s # ss) = Inl EACCES"
| "lookup_path (File _) (s # ss) = Inl ENOTDIR"
| "lookup_path NoAccessFile (s # ss) = Inl ENOTDIR"

definition readFile :: "node \<Rightarrow> string list \<Rightarrow> errno + string" where
  "readFile tree p =
     (case lookup_path tree p of
        Inl e \<Rightarrow> Inl e
      | Inr (File text) \<Rightarrow> Inr text
      | Inr NoAccessFile \<Rightarrow> Inl EACCES
      | Inr (Dir _) \<Rightarrow> Inl EISDIR
      | Inr NoAccessDir \<Rightarrow> Inl EISDIR)"

text \<open>
  \<open>alter_path f tree p\<close> replaces the entry at \<open>p\<close> by what \<open>f\<close> makes of it (\<open>None\<close>: no
  such entry). Every directory on the way must exist.
\<close>

fun alter_path :: "(node option \<Rightarrow> errno + node option) \<Rightarrow> node \<Rightarrow> string list \<Rightarrow> errno + node" where
  "alter_path f n [] = Inl EISDIR"
| "alter_path f (Dir es) [s] =
     (case f (map_of es s) of
        Inl e \<Rightarrow> Inl e
      | Inr None \<Rightarrow> Inr (Dir (remove_entry s es))
      | Inr (Some c) \<Rightarrow> Inr (Dir (put_entry s c es)))"
| "alter_path f (Dir es) (s # t # ss) =
     (case map_of es s of
        None \<Rightarrow> Inl ENOENT
      | Some c \<Rightarrow>
          (case alter_path f c (t # ss) of
             Inl e \<Rightarrow> Inl e
           | Inr c' \<Rightarrow> Inr (Dir (put_entry s c' es))))"
| "alter_path f NoAccessDir (s # ss) = Inl EACCES"
| "alter_path f (File _) (s # ss) = Inl ENOTDIR"
| "alter_path f NoAccessFile (s # ss) = Inl ENOTDIR"

definition write_entry :: "string \<Rightarrow> node option \<Rightarrow> errno + node option" where
  "write_entry text cur =
     (case cur of
        None \<Rightarrow> Inr (Some (File text))
      | Some (File _) \<Rightarrow> Inr (Some (File text))
      | Some NoAccessFile \<Rightarrow> Inl EACCES
      | Some (Dir _) \<Rightarrow> Inl EISDIR
      | Some NoAccessDir \<Rightarrow> Inl EISDIR)"

definition writeFile :: "node \<Rightarrow> string list \<Rightarrow> string \<Rightarrow> errno + node" where
  "writeFile tree p text = alter_path (write_entry text) tree p"

definition unlink_entry :: "node option \<Rightarrow> errno + node option" where
  "unlink_entry cur =
     (case cur of
        None \<Rightarrow> Inl ENOENT
      | Some (File _) \<Rightarrow> Inr None
      | Some NoAccessFile \<Rightarrow> Inr None
      | Some (Dir _) \<Rightarrow> Inl EISDIR
      | Some NoAccessDir \<Rightarrow> Inl EISDIR)"

definition unlink :: "node \<Rightarrow> string list \<Rightarrow> errno + node" where
  "unlink tree p = alter_path unlink_entry tree p"

text \<open>\<^verbatim>\<open>fs.mkdir(dir, {recursive: true})\<close>.\<close>

fun mkdir_recursive :: "node \<Rightarrow> string list \<Rightarrow> errno + node" where
  "mkdir_recursive (Dir es) [] = Inr (Dir es)"
| "mkdir_recursive (Dir es) (s # ss) =
     (case mkdir_recursive (case map_of es s of None \<Rightarrow> Dir [] | Some c \<Rightarrow> c) ss of
        Inl e \<Rightarrow> Inl e
      | Inr c' \<Rightarrow> Inr (Dir (put_entry s c' es)))"
| "mkdir_recursive NoAccessDir [] = Inr NoAccessDir"
| "mkdir_recursive NoAccessDir (s # ss) = Inl EACCES"
| "mkdir_recursive (File _) [] = Inl EEXIST"
| "mkdir_recursive (File _) (s # ss) = Inl ENOTDIR"
| "mkdir_recursive NoAccessFile [] = Inl EEXIST"
| "mkdir_recursive NoAccessFile (s # ss) = Inl ENOTDIR"

text \<open>\<^verbatim>\<open>ensureDir\<close>: \<^verbatim>\<open>fs.access\<close> succeeds on anything that exists.\<close>

definition ensureDir :: "node \<Rightarrow> string list \<Rightarrow> errno + node" where
  "ensureDir tree filePath =
     (let dir = dirname filePath
      in case lookup_path tree dir of
           Inr _ \<Rightarrow> Inr tree
         | Inl _ \<Rightarrow> mkdir_recursive tree dir)"

section \<open>Graph store\<close>

text \<open>
  Modelled from the spec: the session of \<^verbatim>\<open>services/neo4j-client.js\<close> and the graph
  database behind it are not among the sources. The store is a property graph: entities
  with an id, labels and properties, and directed relationships with an id, a type and
  properties. It carries out each statement the handlers send as its text reads: an
  endpoint is matched by label and \<^verbatim>\<open>name\<close> property and every pair of matching endpoints
  is linked, a deletion without \<^verbatim>\<open>DETACH\<close> is refused while the node has relationships.
  A label or a relationship type spliced into a statement is taken as a name, and the map
  \<^verbatim>\<open>{name: $name, ...$props}\<close> as the name together with the bound properties. Element ids
  are natural numbers. \<open>online\<close> is false when \<^verbatim>\<open>getSession()\<close> or \<^verbatim>\<open>session.run\<close> would
  reject for lack of a connection.
\<close>

datatype pval = PStr string | PNum rat | PBool bool

type_synonym props = "string \<rightharpoonup> pval"

record gnode =
  nid :: nat
  labels :: "string list"
  nprops :: props

record grel =
  rid :: nat
  rtype :: string
  src :: nat
  dst :: nat
  rprops :: props

record graph =
  online :: bool
  nodes :: "gnode list"
  rels :: "grel list"
  next_id :: nat

text \<open>The statements the handlers build, with the parts they splice in or bind.\<close>

datatype cypher =
    CreateNode string string props
      \<comment> \<open>\<^verbatim>\<open>CREATE (e:${label} {name: $name, ...$props}) RETURN e, elementId(e) as id\<close>\<close>
  | SetProps nat props
      \<comment> \<open>\<^verbatim>\<open>MATCH (e) WHERE elementId(e) = $id SET e += $props RETURN e\<close>\<close>
  | DeleteNode nat bool
      \<comment> \<open>\<^verbatim>\<open>MATCH (e) WHERE elementId(e) = $id [DETACH] DELETE e\<close>\<close>
  | CreateRel string string string string string props
      \<comment> \<open>\<^verbatim>\<open>MATCH (from:${from_label} {name: $from_name}) MATCH (to:${to_label} {name: $to_name})
          CREATE (from)-[r:${TYPE}]->(to) SET r += $props RETURN r, elementId(r) as id\<close>\<close>
  | MatchMemory string "string option" nat
      \<comment> \<open>\<^verbatim>\<open>MATCH (m:Memory) WHERE m.content CONTAINS $query [AND m.type = $type]
          RETURN m ORDER BY m.importance DESC LIMIT $limit\<close>\<close>

datatype row = NodeRow gnode | RelRow grel

record run_result =
  records :: "row list"
  nodesDeleted :: nat

definition has_label_name :: "string \<Rightarrow> string \<Rightarrow> gnode \<Rightarrow> bool" where
  "has_label_name l n v = (l \<in> set (labels v) \<and> nprops v ''name'' = Some (PStr n))"

definition memory_matches :: "string \<Rightarrow> string option \<Rightarrow> gnode \<Rightarrow> bool" where
  "memory_matches q ty v =
     (''Memory'' \<in> set (labels v)
      \<and> (case nprops v ''content'' of Some (PStr text) \<Rightarrow> js_includes q text | _ \<Rightarrow> False)
      \<and> (case ty of None \<Rightarrow> True | Some t \<Rightarrow> nprops v ''type'' = Some (PStr t)))"

text \<open>
  \<^verbatim>\<open>ORDER BY ... DESC\<close>: a missing value comes first, then numbers, booleans and strings,
  each kind from its largest value down. The key makes that one linear order; nodes with
  equal keys stay in the order the store holds them.
\<close>

definition order_key :: "pval option \<Rightarrow> nat \<times> rat \<times> string" where
  "order_key v =
     (case v of
        None \<Rightarrow> (3, 0, [])
      | Some (PNum r) \<Rightarrow> (2, r, [])
      | Some (PBool b) \<Rightarrow> (1, if b then 1 else 0, [])
      | Some (PStr s) \<Rightarrow> (0, 0, s))"

fun insert_desc :: "('a \<Rightarrow> 'k::linorder) \<Rightarrow> 'a \<Rightarrow> 'a list \<Rightarrow> 'a list" where
  "insert_desc k x [] = [x]"
| "insert_desc k x (y # ys) = (if k x < k y then y # insert_desc k x ys else x # y # ys)"

definition order_by_desc :: "('a \<Rightarrow> 'k::linorder) \<Rightarrow> 'a list \<Rightarrow> 'a list" where
  "order_by_desc k xs = foldr (insert_desc k) xs []"

fun exec :: "cypher \<Rightarrow> graph \<Rightarrow> (error + run_result) \<times> graph" where
  "exec (CreateNode l n p) g =
     (let v = \<lparr>nid = next_id g, labels = [l], nprops = [''name'' \<mapsto> PStr n] ++ p\<rparr>
      in (Inr \<lparr>records = [NodeRow v], nodesDeleted = 0\<rparr>,
          g\<lparr>nodes := nodes g @ [v], next_id := Suc (next_id g)\<rparr>))"
| "exec (SetProps i p) g =
     (let vs = map (\<lambda>v. if nid v = i then v\<lparr>nprops := nprops v ++ p\<rparr> else v) (nodes g)
      in (Inr \<lparr>records = map NodeRow (filter (\<lambda>v. nid v = i) vs), nodesDeleted = 0\<rparr>,
          g\<lparr>nodes := vs\<rparr>))"
| "exec (DeleteNode i detach) g =
     (let hit = filter (\<lambda>v. nid v = i) (nodes g);
          attached = filter (\<lambda>r. src r = i \<or> dst r = i) (rels g)
      in if hit = [] then (Inr \<lparr>records = [], nodesDeleted = 0\<rparr>, g)
         else if \<not> detach \<and> attached \<noteq> [] then (Inl ConstraintViolation, g)
         else (Inr \<lparr>records = [], nodesDeleted = length hit\<rparr>,
               g\<lparr>nodes := filter (\<lambda>v. nid v \<noteq> i) (nodes g),
                 rels := filter (\<lambda>r. \<not> (src r = i \<or> dst r = i)) (rels g)\<rparr>))"
| "exec (CreateRel from_label from_name to_label to_name ty p) g =
     (let pairs = List.product (filter (has_label_name from_label from_name) (nodes g))
                    (filter (has_label_name to_label to_name) (nodes g));
          new = map (\<lambda>(k, a, b). \<lparr>rid = next_id g + k, rtype = ty, src = nid a, dst = nid b,
                                 rprops = p\<rparr>) (enumerate 0 pairs)
      in (Inr \<lparr>records = map RelRow new, nodesDeleted = 0\<rparr>,
          g\<lparr>rels := rels g @ new, next_id := next_id g + length pairs\<rparr>))"
| "exec (MatchMemory q ty limit) g =
     (Inr \<lparr>records = map NodeRow (take limit (order_by_desc (\<lambda>v. order_key (nprops v ''importance''))
                                    (filter (memory_matches q ty) (nodes g)))),
           nodesDeleted = 0\<rparr>, g)"

definition session_run :: "cypher \<Rightarrow> graph \<Rightarrow> (error + run_result) \<times> graph" where
  "session_run q g = (if online g then exec q g else (Inl GraphUnavailable, g))"

section \<open>The state the handlers work on\<close>

text \<open>
  The clock and the random source are read from the state: \<open>iso\<close> is
  \<^verbatim>\<open>new Date().toISOString()\<close>, \<open>epoch_ms\<close> the digits of \<^verbatim>\<open>Date.now()\<close>, \<open>random36\<close>
  the nine characters of \<^verbatim>\<open>Math.random().toString(36).substr(2, 9)\<close>, \<open>locale_date\<close> and
  \<open>locale_string\<close> are \<^verbatim>\<open>toLocaleDateString()\<close> and \<^verbatim>\<open>toLocaleString()\<close>. One call sees
  one reading.
\<close>

record clock =
  iso :: string
  epoch_ms :: string
  random36 :: string
  locale_date :: string
  locale_string :: string

record world =
  graph :: graph
  disk :: node
  VAULT_PATH :: string
  now :: clock

section \<open>Graph adapter\<close>

text \<open>
  Each handler opens a session, runs one statement and closes the session on every
  path. The reply records carry the fields of the object the handler returns.
\<close>

record entity_created =
  ce_success :: bool
  ce_id :: nat
  ce_label :: string
  ce_name :: string
  ce_properties :: props

definition create_entity :: "string \<Rightarrow> string \<Rightarrow> props \<Rightarrow> world \<Rightarrow> (error + entity_created) \<times> world" where
  "create_entity label name properties w =
     (case session_run (CreateNode label name (properties(''createdAt'' \<mapsto> PStr (iso (now w)))))
             (graph w) of
        (Inl e, g) \<Rightarrow> (Inl e, w\<lparr>graph := g\<rparr>)
      | (Inr result, g) \<Rightarrow>
          (case records result of
             NodeRow node # _ \<Rightarrow>
               (Inr \<lparr>ce_success = True, ce_id = nid node, ce_label = label, ce_name = name,
                     ce_properties = nprops node\<rparr>, w\<lparr>graph := g\<rparr>)
           | _ \<Rightarrow> (Inl (TypeError ''record.get''), w\<lparr>graph := g\<rparr>)))"

record entity_updated =
  ue_success :: bool
  ue_id :: nat
  ue_properties :: props

definition update_entity :: "nat \<Rightarrow> props \<Rightarrow> world \<Rightarrow> (error + entity_updated) \<times> world" where
  "update_entity eid properties w =
     (case session_run (SetProps eid (properties(''updatedAt'' \<mapsto> PStr (iso (now w))))) (graph w) of
        (Inl e, g) \<Rightarrow> (Inl e, w\<lparr>graph := g\<rparr>)
      | (Inr result, g) \<Rightarrow>
          (case records result of
             [] \<Rightarrow> (Inl (EntityNotFound eid), w\<lparr>graph := g\<rparr>)
           | NodeRow node # _ \<Rightarrow>
               (Inr \<lparr>ue_success = True, ue_id = eid, ue_properties = nprops node\<rparr>, w\<lparr>graph := g\<rparr>)
           | RelRow _ # _ \<Rightarrow> (Inl (TypeError ''record.get''), w\<lparr>graph := g\<rparr>)))"

record entity_deleted =
  de_success :: bool
  de_id :: nat
  de_deleted :: bool

definition delete_entity :: "nat \<Rightarrow> bool \<Rightarrow> world \<Rightarrow> (error + entity_deleted) \<times> world" where
  "delete_entity eid detach w =
     (case session_run (DeleteNode eid detach) (graph w) of
        (Inl e, g) \<Rightarrow> (Inl e, w\<lparr>graph := g\<rparr>)
      | (Inr result, g) \<Rightarrow>
          (Inr \<lparr>de_success = True, de_id = eid, de_deleted = (nodesDeleted result > 0)\<rparr>,
           w\<lparr>graph := g\<rparr>))"

record relationship_created =
  cr_success :: bool
  cr_id :: nat
  cr_from :: string
  cr_to :: string
  cr_type :: string
  cr_properties :: props

definition create_relationship ::
  "string \<Rightarrow> string \<Rightarrow> string \<Rightarrow> string \<Rightarrow> string \<Rightarrow> props \<Rightarrow> world
     \<Rightarrow> (error + relationship_created) \<times> world" where
  "create_relationship from_label from_name to_label to_name relationship_type properties w =
     (case session_run
             (CreateRel from_label from_name to_label to_name (toUpperCase relationship_type)
                (properties(''createdAt'' \<mapsto> PStr (iso (now w)))))
             (graph w) of
        (Inl e, g) \<Rightarrow> (Inl e, w\<lparr>graph := g\<rparr>)
      | (Inr result, g) \<Rightarrow>
          (case records result of
             [] \<Rightarrow> (Inl EndpointNotFound, w\<lparr>graph := g\<rparr>)
           | RelRow relationship # _ \<Rightarrow>
               (Inr \<lparr>cr_success = True, cr_id = rid relationship, cr_from = from_name,
                     cr_to = to_name, cr_type = relationship_type,
                     cr_properties = rprops relationship\<rparr>, w\<lparr>graph := g\<rparr>)
           | NodeRow _ # _ \<Rightarrow> (Inl (TypeError ''record.get''), w\<lparr>graph := g\<rparr>)))"

text \<open>
  \<^verbatim>\<open>query_graph\<close> runs the statement it is given and returns the records; of its reply
  only \<^verbatim>\<open>records\<close> is read by the callers in this development.
\<close>

definition query_graph :: "cypher \<Rightarrow> world \<Rightarrow> (error + row list) \<times> world" where
  "query_graph q w =
     (case session_run q (graph w) of
        (Inl e, g) \<Rightarrow> (Inl e, w\<lparr>graph := g\<rparr>)
      | (Inr result, g) \<Rightarrow> (Inr (records result), w\<lparr>graph := g\<rparr>))"

section \<open>Note store adapter\<close>

definition normalizeFilename :: "string \<Rightarrow> string" where
  "normalizeFilename filename = (if ends_with ''.md'' filename then filename else filename @ ''.md'')"

definition getFilePath :: "world \<Rightarrow> string \<Rightarrow> string list" where
  "getFilePath w filename =
     (let normalized = normalizeFilename filename;
          cleanName = (if starts_with ''/'' normalized then tl normalized else normalized)
      in path_join (VAULT_PATH w) cleanName)"

record note_read =
  rn_success :: bool
  rn_filename :: string
  rn_path :: string
  rn_frontmatter :: "frontmatter option"
  rn_content :: string

definition read_note :: "string \<Rightarrow> bool \<Rightarrow> world \<Rightarrow> (error + note_read) \<times> world" where
  "read_note filename parse_frontmatter w =
     (let filePath = getFilePath w filename
      in case readFile (disk w) filePath of
           Inl ENOENT \<Rightarrow> (Inl (NoteNotFound filename), w)
         | Inl e \<Rightarrow> (Inl (FsError e), w)
         | Inr text \<Rightarrow>
             (if parse_frontmatter
              then (case parseFrontmatter text of
                      (fm, body) \<Rightarrow>
                        (Inr \<lparr>rn_success = True, rn_filename = filename,
                              rn_path = path_string filePath, rn_frontmatter = fm,
                              rn_content = body\<rparr>, w))
              else (Inr \<lparr>rn_success = True, rn_filename = filename,
                          rn_path = path_string filePath, rn_frontmatter = None,
                          rn_content = text\<rparr>, w)))"

record note_written =
  wn_success :: bool
  wn_filename :: string
  wn_path :: string
  wn_size :: nat

definition write_note ::
  "string \<Rightarrow> string \<Rightarrow> frontmatter option \<Rightarrow> bool \<Rightarrow> world \<Rightarrow> (error + note_written) \<times> world" where
  "write_note filename body frontmatter create_dirs w =
     (let filePath = getFilePath w filename
      in case (if create_dirs then ensureDir (disk w) filePath else Inr (disk w)) of
           Inl e \<Rightarrow> (Inl (FsError e), w)
         | Inr d \<Rightarrow>
             (let fullContent =
                    (case frontmatter of
                       None \<Rightarrow> body
                     | Some fm \<Rightarrow> buildFrontmatter (Some fm) @ nl @ body)
              in case writeFile d filePath fullContent of
                   Inl e \<Rightarrow> (Inl (FsError e), w\<lparr>disk := d\<rparr>)
                 | Inr d' \<Rightarrow>
                     (Inr \<lparr>wn_success = True, wn_filename = filename,
                           wn_path = path_string filePath, wn_size = length fullContent\<rparr>,
                      w\<lparr>disk := d'\<rparr>)))"

text \<open>An optional string argument is truthy when it is given and not empty.\<close>

definition truthy :: "string option \<Rightarrow> bool" where
  "truthy s = (case s of None \<Rightarrow> False | Some t \<Rightarrow> t \<noteq> [])"

definition or_else :: "string option \<Rightarrow> string \<Rightarrow> string" where
  "or_else s d = (if truthy s then the s else d)"

definition create_note ::
  "string \<Rightarrow> string option \<Rightarrow> string \<Rightarrow> string list \<Rightarrow> string \<Rightarrow> world
     \<Rightarrow> (error + note_written) \<times> world" where
  "create_note filename title body tags template w =
     (let timestamp = iso (now w);
          fm0 = [(''created'', FmStr timestamp), (''tags'', FmList tags)];
          fm1 = (if truthy title then assign ''title'' (FmStr (the title)) fm0 else fm0);
          heading = ''# '';
          gap = nl @ nl
      in if template = ''journal''
         then write_note filename
                (heading @ or_else title (locale_date (now w)) @ gap @ body)
                (Some (assign ''type'' (FmStr ''journal'') fm1)) True w
         else if template = ''meeting''
         then write_note filename
                (heading @ or_else title ''Meeting'' @ gap @ ''**Date:** '' @ locale_string (now w)
                   @ gap @ body)
                (Some (assign ''type'' (FmStr ''meeting'') fm1)) True w
         else if template = ''log''
         then write_note filename
                (heading @ or_else title ''Log Entry'' @ gap @ ''**Timestamp:** '' @ timestamp
                   @ gap @ body)
                (Some (assign ''type'' (FmStr ''log'') fm1)) True w
         else write_note filename
                (if truthy title then heading @ the title @ gap @ body else body)
                (Some fm1) True w)"

record note_deleted =
  dn_success :: bool
  dn_filename :: string
  dn_deleted :: bool
  dn_message :: "string option"

definition delete_note :: "string \<Rightarrow> world \<Rightarrow> (error + note_deleted) \<times> world" where
  "delete_note filename w =
     (case unlink (disk w) (getFilePath w filename) of
        Inr d \<Rightarrow>
          (Inr \<lparr>dn_success = True, dn_filename = filename, dn_deleted = True, dn_message = None\<rparr>,
           w\<lparr>disk := d\<rparr>)
      | Inl ENOENT \<Rightarrow>
          (Inr \<lparr>dn_success = True, dn_filename = filename, dn_deleted = False,
                dn_message = Some ''File does not exist''\<rparr>, w)
      | Inl e \<Rightarrow> (Inl (FsError e), w))"

subsection \<open>Searching the notes\<close>

text \<open>
  The query is escaped, so the regular expression matches the query text itself; without
  \<^verbatim>\<open>case_sensitive\<close> it carries the \<^verbatim>\<open>i\<close> flag, and letters are compared folded.
\<close>

definition folded :: "bool \<Rightarrow> string \<Rightarrow> string" where
  "folded case_sensitive s = (if case_sensitive then s else toLowerCase s)"

text \<open>
  \<^verbatim>\<open>content.match(searchRegex)\<close> with the \<^verbatim>\<open>g\<close> flag collects the matches from left to
  right, each starting after the one before; the empty pattern matches once at every
  position, the end included. \<open>skip\<close> counts the characters still covered by the last match.
\<close>

fun count_from :: "string \<Rightarrow> nat \<Rightarrow> string \<Rightarrow> nat" where
  "count_from p skip [] = 0"
| "count_from p skip (c # cs) =
     (if skip > 0 then count_from p (skip - 1) cs
      else if starts_with p (c # cs) then Suc (count_from p (length p - 1) cs)
      else count_from p 0 cs)"

definition match_count :: "bool \<Rightarrow> string \<Rightarrow> string \<Rightarrow> nat" where
  "match_count case_sensitive query text =
     (let p = folded case_sensitive query; t = folded case_sensitive text
      in if p = [] then Suc (length t) else count_from p 0 t)"

text \<open>
  \<^verbatim>\<open>searchRegex.test(line)\<close>: the expression is global, so the search starts at its
  \<^verbatim>\<open>lastIndex\<close>, which a match moves to its end and a failure resets to zero. The pair is
  the answer and the new \<^verbatim>\<open>lastIndex\<close>.
\<close>

definition regex_test :: "bool \<Rightarrow> string \<Rightarrow> nat \<Rightarrow> string \<Rightarrow> bool \<times> nat" where
  "regex_test case_sensitive query lastIndex line =
     (if lastIndex > length line then (False, 0)
      else case index_of_sub (folded case_sensitive query)
                  (drop lastIndex (folded case_sensitive line)) of
             None \<Rightarrow> (False, 0)
           | Some k \<Rightarrow> (True, lastIndex + k + length query))"

fun matching_lines :: "bool \<Rightarrow> string \<Rightarrow> nat \<Rightarrow> (string \<times> nat) list \<Rightarrow> (string \<times> nat) list" where
  "matching_lines case_sensitive query lastIndex [] = []"
| "matching_lines case_sensitive query lastIndex ((line, index) # rest) =
     (case regex_test case_sensitive query lastIndex line of
        (True, lastIndex') \<Rightarrow> (line, index) # matching_lines case_sensitive query lastIndex' rest
      | (False, lastIndex') \<Rightarrow> matching_lines case_sensitive query lastIndex' rest)"

record snippet =
  lineNumber :: nat
  snippet_text :: string

record hit =
  h_filename :: string
  h_path :: string
  h_matchCount :: nat
  h_snippets :: "snippet list option"

definition snippets_of :: "bool \<Rightarrow> string \<Rightarrow> string \<Rightarrow> snippet list" where
  "snippets_of case_sensitive query text =
     (let lines = js_split CHR 0x0A text;
          matchingLines = take 5 (matching_lines case_sensitive query 0
                                    (zip lines [0..<length lines]))
      in map (\<lambda>(line, index). \<lparr>lineNumber = index + 1, snippet_text = take 200 (js_trim line)\<rparr>)
           matchingLines)"

text \<open>One markdown file: a hit when the expression matches its content.\<close>

definition scan_file :: "bool \<Rightarrow> bool \<Rightarrow> string \<Rightarrow> string list \<Rightarrow> string \<Rightarrow> string \<Rightarrow> hit option" where
  "scan_file case_sensitive include_content query rel name text =
     (if match_count case_sensitive query text = 0 then None
      else Some \<lparr>h_filename = name,
                 h_path = js_join ''/'' (rel @ [name]),
                 h_matchCount = match_count case_sensitive query text,
                 h_snippets = (if include_content
                               then Some (snippets_of case_sensitive query text)
                               else None)\<rparr>)"

text \<open>
  \<^verbatim>\<open>searchInDir\<close>: \<open>rel\<close> is the directory relative to the vault, the node is what is
  found there. A directory that cannot be listed gives no results (the error is caught and
  logged). \<open>search_entries\<close> is the loop over the entries, with the results so far; the
  test against \<open>limit\<close> ends every round of the loop.
\<close>

fun searchInDir :: "bool \<Rightarrow> bool \<Rightarrow> string \<Rightarrow> nat \<Rightarrow> string list \<Rightarrow> node \<Rightarrow> hit list"
  and search_entries ::
    "bool \<Rightarrow> bool \<Rightarrow> string \<Rightarrow> nat \<Rightarrow> string list \<Rightarrow> (string \<times> node) list \<Rightarrow> hit list \<Rightarrow> hit list" where
  "searchInDir cs inc q limit rel (Dir es) = search_entries cs inc q limit rel es []"
| "searchInDir cs inc q limit rel (File _) = []"
| "searchInDir cs inc q limit rel NoAccessFile = []"
| "searchInDir cs inc q limit rel NoAccessDir = []"
| "search_entries cs inc q limit rel [] results = results"
| "search_entries cs inc q limit rel ((name, n) # es) results =
     (let results' =
            (case n of
               Dir _ \<Rightarrow> results @ searchInDir cs inc q limit (rel @ [name]) n
             | NoAccessDir \<Rightarrow> results @ searchInDir cs inc q limit (rel @ [name]) n
             | File text \<Rightarrow>
                 (if ends_with ''.md'' name
                  then (case scan_file cs inc q rel name text of
                          None \<Rightarrow> results
                        | Some h \<Rightarrow> results @ [h])
                  else results)
             | NoAccessFile \<Rightarrow> results)
      in if length results' \<ge> limit then results'
         else search_entries cs inc q limit rel es results')"

record notes_found =
  sr_success :: bool
  sr_query :: string
  sr_results :: "hit list"
  sr_count :: nat

text \<open>\<^verbatim>\<open>await searchInDir(VAULT_PATH)\<close>: everything the walk has collected.\<close>

definition walk_vault :: "string \<Rightarrow> bool \<Rightarrow> bool \<Rightarrow> nat \<Rightarrow> world \<Rightarrow> hit list" where
  "walk_vault query case_sensitive include_content limit w =
     (case lookup_path (disk w) (path_join (VAULT_PATH w) []) of
        Inl _ \<Rightarrow> []
      | Inr n \<Rightarrow> searchInDir case_sensitive include_content query limit [] n)"

definition search_notes :: "string \<Rightarrow> bool \<Rightarrow> bool \<Rightarrow> nat \<Rightarrow> world \<Rightarrow> error + notes_found" where
  "search_notes query case_sensitive include_content limit w =
     (let results = walk_vault query case_sensitive include_content limit w
      in Inr \<lparr>sr_success = True, sr_query = query, sr_results = take limit results,
              sr_count = length results\<rparr>)"

section \<open>Memory orchestrator\<close>

text \<open>
  Optional arguments arrive with their defaults filled in (\<^verbatim>\<open>tags = []\<close>,
  \<^verbatim>\<open>entities = []\<close>, \<^verbatim>\<open>importance = 0.5\<close>, \<^verbatim>\<open>source = 'user'\<close>, \<^verbatim>\<open>limit = 10\<close>,
  \<^verbatim>\<open>strength = 0.5\<close>).
\<close>

record entity_ref =
  er_name :: string
  er_label :: "string option"

text \<open>
  The loop over the tags: each round creates the tag entity and links the memory to it
  inside one \<^verbatim>\<open>try\<close>, whose \<^verbatim>\<open>catch\<close> only logs.
\<close>

fun link_tags :: "string \<Rightarrow> string list \<Rightarrow> world \<Rightarrow> world" where
  "link_tags memoryName [] w = w"
| "link_tags memoryName (tag # tags) w =
     (case create_entity ''Tag'' tag Map.empty w of
        (Inl e, w1) \<Rightarrow> link_tags memoryName tags w1
      | (Inr _, w1) \<Rightarrow>
          (case create_relationship ''Memory'' memoryName ''Tag'' tag ''TAGGED_WITH'' Map.empty w1 of
             (_, w2) \<Rightarrow> link_tags memoryName tags w2))"

fun link_entities :: "string \<Rightarrow> entity_ref list \<Rightarrow> world \<Rightarrow> world" where
  "link_entities memoryName [] w = w"
| "link_entities memoryName (entity # entities) w =
     (case create_relationship ''Memory'' memoryName (or_else (er_label entity) ''Entity'')
             (er_name entity) ''MENTIONS'' Map.empty w of
        (_, w1) \<Rightarrow> link_entities memoryName entities w1)"

text \<open>\<^verbatim>\<open>type.charAt(0).toUpperCase() + type.slice(1)\<close>.\<close>

definition capitalize :: "string \<Rightarrow> string" where
  "capitalize s = (case s of [] \<Rightarrow> [] | c # cs \<Rightarrow> to_upper c # cs)"

record stored_flags =
  st_neo4j :: bool
  st_obsidian :: bool

record memory_stored =
  sm_success :: bool
  sm_memoryId :: string
  sm_type :: string
  sm_importance :: rat
  sm_timestamp :: string
  sm_stored :: stored_flags

text \<open>
  \<open>store_in_neo4j\<close> and \<open>store_in_obsidian\<close> are the two \<^verbatim>\<open>try\<close> blocks of
  \<^verbatim>\<open>store_memory\<close>; what they raise is logged and dropped, so each gives back the state only.
\<close>

definition store_in_neo4j ::
  "string \<Rightarrow> string \<Rightarrow> string \<Rightarrow> string \<Rightarrow> string list \<Rightarrow> entity_ref list \<Rightarrow> rat \<Rightarrow> string
     \<Rightarrow> string \<Rightarrow> world \<Rightarrow> world" where
  "store_in_neo4j memoryId memoryName content type tags entities importance source timestamp w =
     (case create_entity ''Memory'' memoryName
             [''id'' \<mapsto> PStr memoryId, ''content'' \<mapsto> PStr content, ''type'' \<mapsto> PStr type,
              ''importance'' \<mapsto> PNum importance, ''source'' \<mapsto> PStr source,
              ''createdAt'' \<mapsto> PStr timestamp] w of
        (Inl error, w1) \<Rightarrow> w1
      | (Inr _, w1) \<Rightarrow> link_entities memoryName entities (link_tags memoryName tags w1))"

definition store_in_obsidian ::
  "string \<Rightarrow> string \<Rightarrow> string \<Rightarrow> string \<Rightarrow> string list \<Rightarrow> world \<Rightarrow> world" where
  "store_in_obsidian memoryId dateStr content type tags w =
     (let filename = ''memory/'' @ dateStr @ ''/'' @ memoryId @ ''.md''
      in case create_note filename
                (Some (capitalize type @ '': '' @ take 50 content @ ''...''))
                content (''memory'' # type # tags) ''log'' w of
           (_, w1) \<Rightarrow> w1)"

definition store_memory ::
  "string \<Rightarrow> string \<Rightarrow> string list \<Rightarrow> entity_ref list \<Rightarrow> rat \<Rightarrow> string \<Rightarrow> world
     \<Rightarrow> (error + memory_stored) \<times> world" where
  "store_memory content type tags entities importance source w =
     (let timestamp = iso (now w);
          dateStr = (case js_split CHR ''T'' timestamp of [] \<Rightarrow> [] | d # _ \<Rightarrow> d);
          memoryId = ''mem_'' @ epoch_ms (now w) @ ''_'' @ random36 (now w);
          memoryName = ''Memory_'' @ memoryId;
          w1 = store_in_neo4j memoryId memoryName content type tags entities importance source
                 timestamp w;
          w2 = store_in_obsidian memoryId dateStr content type tags w1
      in (Inr \<lparr>sm_success = True, sm_memoryId = memoryId, sm_type = type,
                sm_importance = importance, sm_timestamp = timestamp,
                sm_stored = \<lparr>st_neo4j = True, st_obsidian = True\<rparr>\<rparr>, w2))"

subsection \<open>Recall\<close>

record neo_memory =
  nm_id :: "pval option"
  nm_content :: "pval option"
  nm_type :: "pval option"
  nm_importance :: "pval option"
  nm_createdAt :: "pval option"

record memory_item =
  mi_id :: "pval option"
  mi_content :: "pval option"
  mi_type :: "pval option"
  mi_importance :: "pval option"
  mi_createdAt :: "pval option"
  mi_source :: string
  mi_path :: "string option"

definition row_properties :: "row \<Rightarrow> props" where
  "row_properties r = (case r of NodeRow m \<Rightarrow> nprops m | RelRow m \<Rightarrow> rprops m)"

definition memory_of_row :: "row \<Rightarrow> neo_memory" where
  "memory_of_row r =
     \<lparr>nm_id = row_properties r ''id'', nm_content = row_properties r ''content'',
      nm_type = row_properties r ''type'', nm_importance = row_properties r ''importance'',
      nm_createdAt = row_properties r ''createdAt''\<rparr>"

text \<open>
  The two searches of \<^verbatim>\<open>recall_memory\<close>, each in its own \<^verbatim>\<open>try\<close>: what the block
  leaves in \<^verbatim>\<open>results.neo4j\<close> and in \<^verbatim>\<open>results.obsidian\<close>, the empty array when the
  search raised. The statement filters on the type only when \<^verbatim>\<open>type\<close> is truthy. A note
  hit has no \<^verbatim>\<open>tags\<close> field, so with a type only its path decides.
\<close>

definition neo4j_recall :: "string \<Rightarrow> string option \<Rightarrow> nat \<Rightarrow> world \<Rightarrow> neo_memory list \<times> world" where
  "neo4j_recall query type limit w =
     (case query_graph (MatchMemory query (if truthy type then type else None) limit) w of
        (Inl error, w1) \<Rightarrow> ([], w1)
      | (Inr recs, w1) \<Rightarrow> (map memory_of_row recs, w1))"

definition obsidian_recall :: "string \<Rightarrow> string option \<Rightarrow> nat \<Rightarrow> world \<Rightarrow> hit list" where
  "obsidian_recall query type limit w =
     (case search_notes query False True limit w of
        Inl error \<Rightarrow> []
      | Inr obsResult \<Rightarrow>
          filter (\<lambda>r. if \<not> truthy type then True
                      else js_includes (''memory/'' @ the type) (h_path r))
            (sr_results obsResult))"

definition from_neo4j :: "neo_memory \<Rightarrow> memory_item" where
  "from_neo4j m =
     \<lparr>mi_id = nm_id m, mi_content = nm_content m, mi_type = nm_type m,
      mi_importance = nm_importance m, mi_createdAt = nm_createdAt m,
      mi_source = ''neo4j'', mi_path = None\<rparr>"

definition from_obsidian :: "hit \<Rightarrow> memory_item" where
  "from_obsidian m =
     \<lparr>mi_id = Some (PStr (h_filename m)),
      mi_content = Some (PStr (case h_snippets m of
                                 None \<Rightarrow> []
                               | Some ss \<Rightarrow> js_join nl (map snippet_text ss))),
      mi_type = None, mi_importance = None, mi_createdAt = None,
      mi_source = ''obsidian'', mi_path = Some (h_path m)\<rparr>"

record recall_counts =
  cnt_neo4j :: nat
  cnt_obsidian :: nat
  cnt_total :: nat

record memories_recalled =
  rm_success :: bool
  rm_query :: string
  rm_memories :: "memory_item list"
  rm_counts :: recall_counts

definition recall_memory ::
  "string \<Rightarrow> string option \<Rightarrow> nat \<Rightarrow> world \<Rightarrow> (error + memories_recalled) \<times> world" where
  "recall_memory query type limit w =
     (case neo4j_recall query type limit w of
        (neo, w1) \<Rightarrow>
          (let obs = obsidian_recall query type limit w1;
               allMemories = map from_neo4j neo @ map from_obsidian obs
           in (Inr \<lparr>rm_success = True, rm_query = query,
                     rm_memories = take limit allMemories,
                     rm_counts = \<lparr>cnt_neo4j = length neo, cnt_obsidian = length obs,
                                  cnt_total = length allMemories\<rparr>\<rparr>, w1)))"

subsection \<open>Knowledge links\<close>




section \<open>Dispatch server: the \<^verbatim>\<open>tools/call\<close> request handler\<close>

text \<open>
  \<^verbatim>\<open>allTools\<close> is an object literal that spreads the four tool tables. Its own keys are
  the tool names below, in the order of the spreads.
\<close>

definition neo4j_tool_names :: "string list" where
  "neo4j_tool_names =
     [''create_entity'', ''update_entity'', ''delete_entity'', ''create_relationship'',
      ''query_graph'', ''find_entities'', ''get_entity_context'']"

definition obsidian_tool_names :: "string list" where
  "obsidian_tool_names =
     [''read_note'', ''write_note'', ''append_note'', ''list_notes'', ''search_notes'',
      ''create_note'', ''delete_note'']"

definition ollama_tool_names :: "string list" where
  "ollama_tool_names =
     [''chat'', ''complete'', ''embed'', ''list_models'', ''pull_model'', ''show_model_info'']"

definition memory_tool_names :: "string list" where
  "memory_tool_names =
     [''store_memory'', ''recall_memory'', ''create_knowledge_link'', ''get_knowledge_graph'',
      ''search_memories_by_date'', ''update_memory_importance'', ''summarize_memories'']"

definition tool_names :: "string list" where
  "tool_names = neo4j_tool_names @ obsidian_tool_names @ ollama_tool_names @ memory_tool_names"

text \<open>
  \<^verbatim>\<open>allTools[name]\<close> is a property read on a plain object, so besides the own keys it
  also finds what every object inherits from \<^verbatim>\<open>Object.prototype\<close>. Those values are
  functions (or, for \<^verbatim>\<open>__proto__\<close>, the prototype object): truthy, and without a
  \<^verbatim>\<open>handler\<close> property.
\<close>

definition object_prototype_keys :: "string list" where
  "object_prototype_keys =
     [''constructor'', ''__defineGetter__'', ''__defineSetter__'', ''hasOwnProperty'',
      ''__lookupGetter__'', ''__lookupSetter__'', ''isPrototypeOf'', ''propertyIsEnumerable'',
      ''toString'', ''valueOf'', ''__proto__'', ''toLocaleString'']"

datatype 'h slot = Tool 'h | Inherited

text \<open>
  A handler takes the call's arguments and the state of the backends, and gives back
  either the error it raised or its result, with the state it left behind. The table
  \<open>handler_of\<close> (the \<^verbatim>\<open>handler\<close> attached to each tool descriptor) is a parameter.
\<close>

type_synonym ('a, 'r, 'w) handler = "'a \<Rightarrow> 'w \<Rightarrow> (error + 'r) \<times> 'w"

definition allTools :: "(string \<Rightarrow> 'h) \<Rightarrow> string \<Rightarrow> 'h slot option" where
  "allTools handler_of name =
     (if name \<in> set tool_names then Some (Tool (handler_of name))
      else if name \<in> set object_prototype_keys then Some Inherited
      else None)"

text \<open>
  The returned envelope: \<^verbatim>\<open>content: [{type: 'text', text: JSON.stringify(...)}]\<close>, and
  \<^verbatim>\<open>isError: true\<close> on the error path only (the field is absent otherwise). The text is
  kept as the value that is serialised: the handler's result, or \<^verbatim>\<open>{error: error.message}\<close>.
\<close>

datatype 'r payload = ResultText 'r | ErrorText error

datatype 'r content_item = TextItem "'r payload"

record 'r envelope =
  content :: "'r content_item list"
  isError :: "bool option"

text \<open>
  The request handler either throws (\<open>Inl\<close>: the exception leaves the handler and reaches
  the protocol SDK) or returns an envelope (\<open>Inr\<close>). The lookup and its guard come before
  the \<^verbatim>\<open>try\<close>; only the call of the handler is inside it.
\<close>

definition call_tool ::
  "(string \<Rightarrow> ('a, 'r, 'w) handler) \<Rightarrow> string \<Rightarrow> 'a \<Rightarrow> 'w \<Rightarrow> (error + 'r envelope) \<times> 'w" where
  "call_tool handler_of name args w =
     (case allTools handler_of name of
        None \<Rightarrow> (Inl (UnknownTool name), w)
      | Some Inherited \<Rightarrow>
          (Inr \<lparr>content = [TextItem (ErrorText (TypeError (''tool.handler is not a function'')))], isError = Some True\<rparr>, w)
      | Some (Tool h) \<Rightarrow>
          (case h args w of
             (Inr result, w') \<Rightarrow>
               (Inr \<lparr>content = [TextItem (ResultText result)], isError = None\<rparr>, w')
           | (Inl e, w') \<Rightarrow>
               (Inr \<lparr>content = [TextItem (ErrorText e)], isError = Some True\<rparr>, w')))"

text \<open>
  A handler table to run the request handler on: every handler raises, and changes the
  state, so a call that leaves the state untouched has run no handler.
\<close>

definition failing_table :: "string \<Rightarrow> (unit, nat, nat) handler" where
  "failing_table name args w = (Inl GraphUnavailable, Suc w)"

section \<open>States to run the handlers on\<close>

definition demo_clock :: clock where
  "demo_clock = \<lparr>iso = ''2024-01-01T10:00:00.000Z'', epoch_ms = ''1704103200000'',
     random36 = ''k3j9x0q2a'', locale_date = ''1/1/2024'', locale_string = ''1/1/2024, 10:00:00 AM''\<rparr>"

definition empty_graph :: graph where
  "empty_graph = \<lparr>online = True, nodes = [], rels = [], next_id = 0\<rparr>"

text \<open>
  The vault of \<open>demo_world\<close>: three directories \<^verbatim>\<open>a\<close>, \<^verbatim>\<open>b\<close>, \<^verbatim>\<open>c\<close>, each holding the notes
  \<^verbatim>\<open>x.md\<close> and \<^verbatim>\<open>y.md\<close> with the same line of text, so that what a walk counts does not
  depend on the order in which a directory lists its entries.
\<close>

definition demo_notes :: "(string \<times> node) list" where
  "demo_notes = [(''x.md'', File ''a test''), (''y.md'', File ''a test'')]"

definition demo_world :: world where
  "demo_world = \<lparr>graph = empty_graph,
     disk = Dir [(''vault'', Dir [(''a'', Dir demo_notes), (''b'', Dir demo_notes),
                                  (''c'', Dir demo_notes)])],
     VAULT_PATH = ''/vault'', now = demo_clock\<rparr>"

definition offline_world :: world where
  "offline_world = demo_world\<lparr>graph := empty_graph\<lparr>online := False\<rparr>\<rparr>"

definition later_clock :: clock where
  "later_clock = \<lparr>iso = ''2024-01-02T08:30:00.000Z'', epoch_ms = ''1704184200000'',
     random36 = ''p0o9i8u7y'', locale_date = ''1/2/2024'', locale_string = ''1/2/2024, 8:30:00 AM''\<rparr>"

definition broken_world :: world where
  "broken_world = \<lparr>graph = empty_graph\<lparr>online := False\<rparr>, disk = File [],
     VAULT_PATH = ''/vault'', now = demo_clock\<rparr>"

definition concept_world :: world where
  "concept_world = demo_world\<lparr>graph :=
     \<lparr>online = True,
      nodes = [\<lparr>nid = 0, labels = [''Concept''], nprops = [''name'' \<mapsto> PStr ''A'']\<rparr>,
               \<lparr>nid = 1, labels = [''Concept''], nprops = [''name'' \<mapsto> PStr ''B'']\<rparr>],
      rels = [], next_id = 2\<rparr>\<rparr>"

text \<open>
  What the handlers add to the graph: the node \<^verbatim>\<open>create_entity\<close> creates and the
  relationship \<^verbatim>\<open>create_relationship\<close> creates between two nodes, in the state \<open>w\<close>.
\<close>

definition new_node :: "world \<Rightarrow> string \<Rightarrow> string \<Rightarrow> props \<Rightarrow> gnode" where
  "new_node w label name properties =
     \<lparr>nid = next_id (graph w), labels = [label],
      nprops = [''name'' \<mapsto> PStr name] ++ properties(''createdAt'' \<mapsto> PStr (iso (now w)))\<rparr>"

definition new_rel :: "world \<Rightarrow> gnode \<Rightarrow> gnode \<Rightarrow> string \<Rightarrow> props \<Rightarrow> grel" where
  "new_rel w a b relationship_type properties =
     \<lparr>rid = next_id (graph w), rtype = toUpperCase relationship_type, src = nid a, dst = nid b,
      rprops = properties(''createdAt'' \<mapsto> PStr (iso (now w)))\<rparr>"


text \<open>
  Two memories stored one after the other, the less important one first, the second a day
  later.
\<close>

definition two_memories :: world where
  "two_memories =
     snd (store_memory ''more milk'' ''task'' [] [] (9 / 10) ''user''
            ((snd (store_memory ''buy milk'' ''task'' [] [] (1 / 5) ''user'' demo_world))
               \<lparr>now := later_clock\<rparr>))"

text \<open>\<^verbatim>\<open>entry.isDirectory()\<close> of a directory entry.\<close>

definition isDirectory :: "node \<Rightarrow> bool" where
  "isDirectory n = (case n of Dir _ \<Rightarrow> True | NoAccessDir \<Rightarrow> True | _ \<Rightarrow> False)"

section \<open>Dispatch of an unregistered tool name\<close>

lemma no_such_tool_lookup: "allTools h ''no_such_tool'' = None"
  by (simp add: allTools_def tool_names_def neo4j_tool_names_def obsidian_tool_names_def
      ollama_tool_names_def memory_tool_names_def object_prototype_keys_def)

text \<open>
  When the lookup \<^verbatim>\<open>allTools[name]\<close> finds nothing, the request handler throws the
  unknown-tool error and leaves the backends as they were, whatever the handlers in the
  table would do (none is invoked); an error raised by the handler of a registered tool is
  returned as an envelope with \<^verbatim>\<open>isError: true\<close>.
\<close>

lemma unknown_name_thrown:
  "(allTools handler_of name = None \<longrightarrow>
      call_tool handler_of name args w = (Inl (UnknownTool name), w))
   \<and> (name \<in> set tool_names \<longrightarrow> handler_of name args w = (Inl e, w') \<longrightarrow>
      call_tool handler_of name args w =
        (Inr \<lparr>content = [TextItem (ErrorText e)], isError = Some True\<rparr>, w'))"
  by (simp add: call_tool_def allTools_def)

lemma unknown_name_runs_no_handler:
  "call_tool failing_table ''no_such_tool'' () 0 = (Inl (UnknownTool ''no_such_tool''), 0)"
  by (simp add: call_tool_def no_such_tool_lookup)

lemma toString_lookup: "allTools h ''toString'' = Some Inherited"
  by (simp add: allTools_def tool_names_def neo4j_tool_names_def obsidian_tool_names_def
      ollama_tool_names_def memory_tool_names_def object_prototype_keys_def)

text \<open>
  C1. Every unregistered tool name is to be answered with the unknown-tool error. The
  name \<^verbatim>\<open>toString\<close> is no registered tool, but \<^verbatim>\<open>allTools[name]\<close> finds the function every
  object inherits, the guard \<^verbatim>\<open>if (!tool)\<close> lets it pass, and the call of its missing
  \<^verbatim>\<open>handler\<close> raises a \<^verbatim>\<open>TypeError\<close> inside the \<^verbatim>\<open>try\<close>. For every handler table, argument
  and state the answer is an error envelope that carries this \<^verbatim>\<open>TypeError\<close>; the
  unknown-tool error is neither thrown nor reported. No handler has run: the state is
  unchanged.
\<close>

theorem inherited_name_not_rejected:
  "''toString'' \<notin> set tool_names
   \<and> call_tool handler_of ''toString'' args w =
       (Inr \<lparr>content = [TextItem (ErrorText (TypeError ''tool.handler is not a function''))],
             isError = Some True\<rparr>, w)
   \<and> fst (call_tool handler_of ''toString'' args w) \<noteq> Inl (UnknownTool ''toString'')
   \<and> content (projr (fst (call_tool handler_of ''toString'' args w)))
       \<noteq> [TextItem (ErrorText (UnknownTool ''toString''))]"
proof -
  have "''toString'' \<notin> set tool_names"
    by (simp add: tool_names_def neo4j_tool_names_def obsidian_tool_names_def
        ollama_tool_names_def memory_tool_names_def)
  then show ?thesis
    by (simp add: call_tool_def toString_lookup)
qed

section \<open>Note store: writing a note and reading it back\<close>

lemma map_of_put_entry: "map_of (put_entry k v es) k = Some v"
  by (induction es) auto

lemma alter_write_lookup:
  "alter_path (write_entry text) t p = Inr t' \<Longrightarrow> lookup_path t' p = Inr (File text)"
proof (induction "write_entry text" t p arbitrary: t' rule: alter_path.induct)
  case (2 es s)
  then show ?case
    by (auto simp: write_entry_def map_of_put_entry split: option.splits node.splits sum.splits)
next
  case (3 es s t ss)
  then show ?case
    by (auto simp: map_of_put_entry split: option.splits sum.splits)
qed simp_all

lemma write_then_read: "writeFile d p text = Inr d' \<Longrightarrow> readFile d' p = Inr text"
  by (simp add: writeFile_def readFile_def alter_write_lookup)

lemma trim_nl: "js_trim (nl @ s) = js_trim s"
  by (simp add: js_trim_def nl_def is_space_def)

lemma parse_built:
  "parseFrontmatter (buildFrontmatter (Some [(''tags'', FmList [''a'', ''b'']), (''created'', FmStr ''2024-01-01'')]) @ nl @ body)
   = (Some [(''tags'', FmList [''a'', ''b'']), (''created'', FmStr ''2024-01-01'')], js_trim body)"
  apply (simp add: buildFrontmatter_def parseFrontmatter_def nl_def dquote_def Let_def)
  apply (simp add: parse_line_def parse_value_def ends_with_def dquote_def slice_inner_def strip_quotes_def js_trim_def is_space_def)
  done

lemma getFilePath_disk: "getFilePath (w\<lparr>disk := d\<rparr>) filename = getFilePath w filename"
  by (simp add: getFilePath_def)

text \<open>
  C7. A note written by \<^verbatim>\<open>write_note\<close> with the front-matter
  \<^verbatim>\<open>{tags: ["a", "b"], created: "2024-01-01"}\<close> and any body, read back by \<^verbatim>\<open>read_note\<close>
  on the same file name with front-matter parsing on, comes back with the same tag array
  and the same \<^verbatim>\<open>created\<close> string (and the body, trimmed).
\<close>

theorem frontmatter_round_trip:
  assumes "write_note filename body
             (Some [(''tags'', FmList [''a'', ''b'']), (''created'', FmStr ''2024-01-01'')])
             create_dirs w = (Inr r, w')"
  shows "read_note filename True w' =
           (Inr \<lparr>rn_success = True, rn_filename = filename,
                 rn_path = path_string (getFilePath w filename),
                 rn_frontmatter = Some [(''tags'', FmList [''a'', ''b'']),
                                        (''created'', FmStr ''2024-01-01'')],
                 rn_content = js_trim body\<rparr>, w')"
proof -
  let ?fm = "[(''tags'', FmList [''a'', ''b'']), (''created'', FmStr ''2024-01-01'')]"
  let ?full = "buildFrontmatter (Some ?fm) @ nl @ body"
  from assms obtain d d' where
    written: "writeFile d (getFilePath w filename) ?full = Inr d'" and w': "w' = w\<lparr>disk := d'\<rparr>"
    by (auto simp: write_note_def Let_def split: sum.splits if_splits)
  have "readFile (disk w') (getFilePath w' filename) = Inr ?full"
    using write_then_read [OF written] by (simp add: w' getFilePath_disk)
  then show ?thesis
    by (simp add: read_note_def Let_def parse_built w' getFilePath_disk)
qed

theorem frontmatter_round_trip_witness:
  "fst (write_note ''notes/n'' ''hello''
          (Some [(''tags'', FmList [''a'', ''b'']), (''created'', FmStr ''2024-01-01'')]) True demo_world)
     = Inr \<lparr>wn_success = True, wn_filename = ''notes/n'', wn_path = ''/vault/notes/n.md'', wn_size = 53\<rparr>
   \<and> read_note ''notes/n'' True
         (snd (write_note ''notes/n'' ''hello''
                 (Some [(''tags'', FmList [''a'', ''b'']), (''created'', FmStr ''2024-01-01'')]) True demo_world))
     = (Inr \<lparr>rn_success = True, rn_filename = ''notes/n'', rn_path = ''/vault/notes/n.md'',
             rn_frontmatter = Some [(''tags'', FmList [''a'', ''b'']), (''created'', FmStr ''2024-01-01'')],
             rn_content = ''hello''\<rparr>,
        snd (write_note ''notes/n'' ''hello''
               (Some [(''tags'', FmList [''a'', ''b'']), (''created'', FmStr ''2024-01-01'')]) True demo_world))"
proof -
  let ?fm = "[(''tags'', FmList [''a'', ''b'']), (''created'', FmStr ''2024-01-01'')]"
  let ?r = "\<lparr>wn_success = True, wn_filename = ''notes/n'', wn_path = ''/vault/notes/n.md'', wn_size = 53\<rparr>"
  have a: "fst (write_note ''notes/n'' ''hello'' (Some ?fm) True demo_world) = Inr ?r"
    by code_simp
  then have h: "write_note ''notes/n'' ''hello'' (Some ?fm) True demo_world
      = (Inr ?r, snd (write_note ''notes/n'' ''hello'' (Some ?fm) True demo_world))"
    by (metis prod.collapse)
  have p: "path_string (getFilePath demo_world ''notes/n'') = ''/vault/notes/n.md''"
    by code_simp
  have t: "js_trim ''hello'' = ''hello''"
    by code_simp
  show ?thesis
    using a frontmatter_round_trip [OF h] by (simp add: p t)
qed

section \<open>Note store: deleting a note that is not there\<close>

lemma lookup_absent_unlink:
  "lookup_path t p = Inl ENOENT \<Longrightarrow> alter_path unlink_entry t p = Inl ENOENT"
proof (induction unlink_entry t p rule: alter_path.induct)
  case (2 es s)
  then show ?case by (auto simp: unlink_entry_def split: option.splits)
next
  case (3 es s t ss)
  then show ?case by (auto split: option.splits)
qed simp_all

text \<open>
  C8, as stated, fails: not every path without a file is answered with a result. In
  \<open>demo_world\<close> the note \<^verbatim>\<open>a/x.md\<close> is a file, so there is no file at \<^verbatim>\<open>a/x.md/z.md\<close>:
  the lookup and a read both fail. The file system answers \<^verbatim>\<open>ENOTDIR\<close>, which
  \<^verbatim>\<open>delete_note\<close> throws again, as it does with every code but \<^verbatim>\<open>ENOENT\<close>.
\<close>

theorem delete_note_below_a_file_raises:
  "lookup_path (disk demo_world) (getFilePath demo_world ''a/x.md/z'') = Inl ENOTDIR
   \<and> readFile (disk demo_world) (getFilePath demo_world ''a/x.md/z'') = Inl ENOTDIR
   \<and> delete_note ''a/x.md/z'' demo_world = (Inl (FsError ENOTDIR), demo_world)"
proof -
  have p: "getFilePath demo_world ''a/x.md/z'' = [''vault'', ''a'', ''x.md'', ''z.md'']"
    by code_simp
  have l: "lookup_path (disk demo_world) [''vault'', ''a'', ''x.md'', ''z.md''] = Inl ENOTDIR"
    by (simp add: demo_world_def demo_notes_def)
  have u: "unlink (disk demo_world) [''vault'', ''a'', ''x.md'', ''z.md''] = Inl ENOTDIR"
    by (simp add: demo_world_def demo_notes_def unlink_def)
  show ?thesis
    by (simp add: p l u readFile_def delete_note_def)
qed

text \<open>
  C8, amended. When the file system answers \<^verbatim>\<open>ENOENT\<close> for the note's path (no entry of
  that name where the path leads), \<^verbatim>\<open>delete_note\<close> does not fail: it returns
  \<^verbatim>\<open>success: true, deleted: false\<close> and leaves the vault as it was, and so does a second call
  on the same path.
\<close>

theorem delete_note_absent_idempotent:
  assumes "lookup_path (disk w) (getFilePath w filename) = Inl ENOENT"
  shows "delete_note filename w =
           (Inr \<lparr>dn_success = True, dn_filename = filename, dn_deleted = False,
                 dn_message = Some ''File does not exist''\<rparr>, w)
         \<and> delete_note filename (snd (delete_note filename w)) =
           (Inr \<lparr>dn_success = True, dn_filename = filename, dn_deleted = False,
                 dn_message = Some ''File does not exist''\<rparr>, w)"
proof -
  have "unlink (disk w) (getFilePath w filename) = Inl ENOENT"
    using assms by (simp add: unlink_def lookup_absent_unlink)
  then have first: "delete_note filename w =
           (Inr \<lparr>dn_success = True, dn_filename = filename, dn_deleted = False,
                 dn_message = Some ''File does not exist''\<rparr>, w)"
    by (simp add: delete_note_def)
  then show ?thesis by simp
qed

theorem delete_note_absent_idempotent_witness:
  "lookup_path (disk demo_world) (getFilePath demo_world ''gone'') = Inl ENOENT
   \<and> delete_note ''gone'' demo_world =
           (Inr \<lparr>dn_success = True, dn_filename = ''gone'', dn_deleted = False,
                 dn_message = Some ''File does not exist''\<rparr>, demo_world)
   \<and> delete_note ''gone'' (snd (delete_note ''gone'' demo_world)) =
           (Inr \<lparr>dn_success = True, dn_filename = ''gone'', dn_deleted = False,
                 dn_message = Some ''File does not exist''\<rparr>, demo_world)"
proof -
  have h: "lookup_path (disk demo_world) (getFilePath demo_world ''gone'') = Inl ENOENT"
    by code_simp
  show ?thesis
    using h delete_note_absent_idempotent [OF h] by simp
qed

section \<open>Storing a memory\<close>

text \<open>
  C2. Whatever the arguments and whatever the two backends do with the writes (the state
  \<open>w\<close> is arbitrary: the graph store may be offline, the vault may refuse the note),
  \<^verbatim>\<open>store_memory\<close> returns \<^verbatim>\<open>success: true\<close> with \<^verbatim>\<open>stored.neo4j\<close> and
  \<^verbatim>\<open>stored.obsidian\<close> both true; nothing in the reply depends on the graph or the disk.
\<close>

theorem store_memory_reports_stored:
  "fst (store_memory text type tags entities importance source w) =
     Inr \<lparr>sm_success = True,
           sm_memoryId = ''mem_'' @ epoch_ms (now w) @ ''_'' @ random36 (now w),
           sm_type = type, sm_importance = importance, sm_timestamp = iso (now w),
           sm_stored = \<lparr>st_neo4j = True, st_obsidian = True\<rparr>\<rparr>"
  by (simp add: store_memory_def Let_def)

text \<open>Both writes can indeed fail: then nothing is stored anywhere, and the reply is the same.\<close>

lemma store_memory_both_writes_fail:
  "store_memory ''test'' ''fact'' [''t''] [] (1 / 2) ''user'' broken_world =
     (Inr \<lparr>sm_success = True, sm_memoryId = ''mem_1704103200000_k3j9x0q2a'',
           sm_type = ''fact'', sm_importance = 1 / 2, sm_timestamp = ''2024-01-01T10:00:00.000Z'',
           sm_stored = \<lparr>st_neo4j = True, st_obsidian = True\<rparr>\<rparr>, broken_world)"
  by (simp add: store_memory_def store_in_neo4j_def store_in_obsidian_def create_entity_def
      session_run_def create_note_def write_note_def ensureDir_def getFilePath_def
      broken_world_def empty_graph_def demo_clock_def Let_def truthy_def dirname_def
      path_join_def normalizeFilename_def ends_with_def norm_step_def)

section \<open>Graph adapter: relationships and deletion\<close>

lemma create_entity_online:
  "online (graph w) \<Longrightarrow>
   create_entity label name properties w =
     (Inr \<lparr>ce_success = True, ce_id = next_id (graph w), ce_label = label, ce_name = name,
           ce_properties = nprops (new_node w label name properties)\<rparr>,
      w\<lparr>graph := (graph w)\<lparr>nodes := nodes (graph w) @ [new_node w label name properties],
                            next_id := Suc (next_id (graph w))\<rparr>\<rparr>)"
  by (simp add: create_entity_def session_run_def new_node_def Let_def)

lemma create_relationship_unique:
  "online (graph w) \<Longrightarrow>
   filter (has_label_name from_label from_name) (nodes (graph w)) = [a] \<Longrightarrow>
   filter (has_label_name to_label to_name) (nodes (graph w)) = [b] \<Longrightarrow>
   create_relationship from_label from_name to_label to_name relationship_type properties w =
     (Inr \<lparr>cr_success = True, cr_id = next_id (graph w), cr_from = from_name, cr_to = to_name,
           cr_type = relationship_type,
           cr_properties = properties(''createdAt'' \<mapsto> PStr (iso (now w)))\<rparr>,
      w\<lparr>graph := (graph w)\<lparr>rels := rels (graph w) @ [new_rel w a b relationship_type properties],
                            next_id := Suc (next_id (graph w))\<rparr>\<rparr>)"
  by (simp add: create_relationship_def session_run_def new_rel_def Let_def)

lemma product_empty_right: "List.product xs [] = []"
  by (induction xs) simp_all

lemma create_relationship_no_endpoint:
  assumes "online (graph w)"
    and "filter (has_label_name from_label from_name) (nodes (graph w)) = []
         \<or> filter (has_label_name to_label to_name) (nodes (graph w)) = []"
  shows "create_relationship from_label from_name to_label to_name relationship_type properties w =
     (Inl EndpointNotFound, w)"
proof -
  have "List.product (filter (has_label_name from_label from_name) (nodes (graph w)))
          (filter (has_label_name to_label to_name) (nodes (graph w))) = []"
    using assms(2) by (elim disjE) (simp_all only: List.product.simps list.map concat.simps product_empty_right)
  then show ?thesis
    using assms(1) by (simp add: create_relationship_def session_run_def Let_def)
qed

text \<open>
  C5. With the store online: when the source label and name match exactly one entity
  \<open>a\<close> and the target label and name exactly one entity \<open>b\<close>, \<^verbatim>\<open>create_relationship\<close>
  succeeds and adds exactly one relationship, directed from \<open>a\<close> to \<open>b\<close>, whose type is the
  given type in upper case; when either endpoint matches no entity it fails with the
  endpoint-not-found error and the graph is as before.
\<close>

theorem create_relationship_endpoints:
  assumes "online (graph w)"
  shows "(filter (has_label_name from_label from_name) (nodes (graph w)) = [a]
          \<and> filter (has_label_name to_label to_name) (nodes (graph w)) = [b] \<longrightarrow>
            (\<exists>r w'. create_relationship from_label from_name to_label to_name relationship_type
                       properties w = (Inr r, w')
               \<and> cr_success r
               \<and> nodes (graph w') = nodes (graph w)
               \<and> rels (graph w') =
                   rels (graph w) @
                     [\<lparr>rid = cr_id r, rtype = toUpperCase relationship_type, src = nid a, dst = nid b,
                       rprops = properties(''createdAt'' \<mapsto> PStr (iso (now w)))\<rparr>]))
       \<and> (filter (has_label_name from_label from_name) (nodes (graph w)) = []
          \<or> filter (has_label_name to_label to_name) (nodes (graph w)) = [] \<longrightarrow>
            create_relationship from_label from_name to_label to_name relationship_type
              properties w = (Inl EndpointNotFound, w))"
proof (intro conjI impI)
  assume "filter (has_label_name from_label from_name) (nodes (graph w)) = [a]
          \<and> filter (has_label_name to_label to_name) (nodes (graph w)) = [b]"
  then have ends: "filter (has_label_name from_label from_name) (nodes (graph w)) = [a]"
    "filter (has_label_name to_label to_name) (nodes (graph w)) = [b]"
    by blast+
  show "\<exists>r w'. create_relationship from_label from_name to_label to_name relationship_type
                       properties w = (Inr r, w')
               \<and> cr_success r
               \<and> nodes (graph w') = nodes (graph w)
               \<and> rels (graph w') =
                   rels (graph w) @
                     [\<lparr>rid = cr_id r, rtype = toUpperCase relationship_type, src = nid a, dst = nid b,
                       rprops = properties(''createdAt'' \<mapsto> PStr (iso (now w)))\<rparr>]"
    unfolding create_relationship_unique [OF assms ends]
    by (simp add: new_rel_def)
next
  assume "filter (has_label_name from_label from_name) (nodes (graph w)) = []
          \<or> filter (has_label_name to_label to_name) (nodes (graph w)) = []"
  with assms show "create_relationship from_label from_name to_label to_name relationship_type
              properties w = (Inl EndpointNotFound, w)"
    by (rule create_relationship_no_endpoint)
qed

theorem create_relationship_endpoints_witness:
  "online (graph concept_world)
   \<and> filter (has_label_name ''Concept'' ''A'') (nodes (graph concept_world))
       = [\<lparr>nid = 0, labels = [''Concept''], nprops = [''name'' \<mapsto> PStr ''A'']\<rparr>]
   \<and> filter (has_label_name ''Concept'' ''B'') (nodes (graph concept_world))
       = [\<lparr>nid = 1, labels = [''Concept''], nprops = [''name'' \<mapsto> PStr ''B'']\<rparr>]
   \<and> (\<exists>r w'. create_relationship ''Concept'' ''A'' ''Concept'' ''B'' ''knows'' Map.empty concept_world
                = (Inr r, w')
          \<and> cr_success r
          \<and> nodes (graph w') = nodes (graph concept_world)
          \<and> rels (graph w') =
               [\<lparr>rid = cr_id r, rtype = ''KNOWS'', src = 0, dst = 1,
                 rprops = [''createdAt'' \<mapsto> PStr ''2024-01-01T10:00:00.000Z'']\<rparr>])
   \<and> filter (has_label_name ''Concept'' ''Z'') (nodes (graph concept_world)) = []
   \<and> create_relationship ''Concept'' ''Z'' ''Concept'' ''B'' ''knows'' Map.empty concept_world
       = (Inl EndpointNotFound, concept_world)"
proof -
  let ?a = "\<lparr>nid = 0, labels = [''Concept''], nprops = [''name'' \<mapsto> PStr ''A'']\<rparr>"
  let ?b = "\<lparr>nid = 1, labels = [''Concept''], nprops = [''name'' \<mapsto> PStr ''B'']\<rparr>"
  have on: "online (graph concept_world)"
    by (simp add: concept_world_def)
  have fa: "filter (has_label_name ''Concept'' ''A'') (nodes (graph concept_world)) = [?a]"
    by (simp add: concept_world_def has_label_name_def)
  have fb: "filter (has_label_name ''Concept'' ''B'') (nodes (graph concept_world)) = [?b]"
    by (simp add: concept_world_def has_label_name_def)
  have fz: "filter (has_label_name ''Concept'' ''Z'') (nodes (graph concept_world)) = []"
    by (simp add: concept_world_def has_label_name_def)
  have up: "toUpperCase ''knows'' = ''KNOWS''"
    by code_simp
  have facts: "rels (graph concept_world) = []" "iso (now concept_world) = ''2024-01-01T10:00:00.000Z''"
    by (simp_all add: concept_world_def demo_world_def demo_clock_def)
  note 1 = create_relationship_endpoints
             [of concept_world "''Concept''" "''A''" ?a "''Concept''" "''B''" ?b "''knows''" Map.empty,
              OF on, THEN conjunct1, THEN mp, OF conjI [OF fa fb]]
  note 2 = create_relationship_endpoints
             [of concept_world "''Concept''" "''Z''" _ "''Concept''" "''B''" _ "''knows''" Map.empty,
              OF on, THEN conjunct2, THEN mp, OF disjI1 [OF fz]]
  from 1 have 3: "\<exists>r w'. create_relationship ''Concept'' ''A'' ''Concept'' ''B'' ''knows'' Map.empty concept_world
                = (Inr r, w')
          \<and> cr_success r
          \<and> nodes (graph w') = nodes (graph concept_world)
          \<and> rels (graph w') =
               [\<lparr>rid = cr_id r, rtype = ''KNOWS'', src = 0, dst = 1,
                 rprops = [''createdAt'' \<mapsto> PStr ''2024-01-01T10:00:00.000Z'']\<rparr>]"
    by (simp add: up facts)
  show ?thesis
    by (intro conjI) (rule on fa fb 3 fz 2)+
qed

lemma filter_nid_none: "(\<forall>v\<in>set vs. nid v \<noteq> eid) \<Longrightarrow> filter (\<lambda>v. nid v = eid) vs = []"
  by (induction vs) auto

lemma map_nid_none:
  "(\<forall>v\<in>set vs. nid v \<noteq> eid) \<Longrightarrow> map (\<lambda>v. if nid v = eid then f v else v) vs = vs"
  by (induction vs) auto

text \<open>
  C9. With the store online: for an id that no node has, \<^verbatim>\<open>delete_entity\<close> returns
  \<^verbatim>\<open>success: true, deleted: false\<close> and changes nothing, where \<^verbatim>\<open>update_entity\<close> raises the
  entity-not-found error; and whenever the statement runs, \<^verbatim>\<open>deleted\<close> is true exactly
  when the store's summary counts at least one deleted node, which is when a node had
  the id.
\<close>

theorem delete_entity_missing_id:
  assumes "online (graph w)"
  shows "((\<forall>v\<in>set (nodes (graph w)). nid v \<noteq> eid) \<longrightarrow>
            delete_entity eid detach w =
              (Inr \<lparr>de_success = True, de_id = eid, de_deleted = False\<rparr>, w)
            \<and> fst (update_entity eid properties w) = Inl (EntityNotFound eid))
         \<and> (\<forall>result g. session_run (DeleteNode eid detach) (graph w) = (Inr result, g) \<longrightarrow>
               fst (delete_entity eid detach w) =
                 Inr \<lparr>de_success = True, de_id = eid, de_deleted = (0 < nodesDeleted result)\<rparr>
               \<and> (0 < nodesDeleted result) = (\<exists>v\<in>set (nodes (graph w)). nid v = eid))"
proof -
  have a: "delete_entity eid detach w = (Inr \<lparr>de_success = True, de_id = eid, de_deleted = False\<rparr>, w)"
    and b: "fst (update_entity eid properties w) = Inl (EntityNotFound eid)"
    if none: "\<forall>v\<in>set (nodes (graph w)). nid v \<noteq> eid"
  proof -
    show "delete_entity eid detach w = (Inr \<lparr>de_success = True, de_id = eid, de_deleted = False\<rparr>, w)"
      using assms filter_nid_none [OF none]
      by (simp add: delete_entity_def session_run_def Let_def)
    show "fst (update_entity eid properties w) = Inl (EntityNotFound eid)"
      using assms filter_nid_none [OF none] map_nid_none [OF none]
      by (simp add: update_entity_def session_run_def Let_def)
  qed
  have c: "fst (delete_entity eid detach w) =
                 Inr \<lparr>de_success = True, de_id = eid, de_deleted = (0 < nodesDeleted result)\<rparr>
               \<and> (0 < nodesDeleted result) = (\<exists>v\<in>set (nodes (graph w)). nid v = eid)"
    if run: "session_run (DeleteNode eid detach) (graph w) = (Inr result, g)" for result g
  proof -
    have "(filter (\<lambda>v. nid v = eid) (nodes (graph w)) \<noteq> []) = (\<exists>v\<in>set (nodes (graph w)). nid v = eid)"
      by (auto simp: filter_empty_conv)
    then show ?thesis
      using run assms
      by (auto simp: delete_entity_def session_run_def Let_def split: if_splits)
  qed
  show ?thesis using a b c by blast
qed

theorem delete_entity_missing_id_witness:
  "online (graph concept_world)
   \<and> 5 \<notin> set (map nid (nodes (graph concept_world)))
   \<and> delete_entity 5 False concept_world =
       (Inr \<lparr>de_success = True, de_id = 5, de_deleted = False\<rparr>, concept_world)
   \<and> fst (update_entity 5 Map.empty concept_world) = Inl (EntityNotFound 5)
   \<and> fst (session_run (DeleteNode 1 False) (graph concept_world))
       = Inr \<lparr>records = [], nodesDeleted = 1\<rparr>
   \<and> fst (delete_entity 1 False concept_world) =
       Inr \<lparr>de_success = True, de_id = 1, de_deleted = True\<rparr>"
proof -
  have on: "online (graph concept_world)"
    by (simp add: concept_world_def)
  have none: "\<forall>v\<in>set (nodes (graph concept_world)). nid v \<noteq> 5"
    by (simp add: concept_world_def)
  have run: "fst (session_run (DeleteNode 1 False) (graph concept_world))
       = Inr \<lparr>records = [], nodesDeleted = 1\<rparr>"
    by (simp add: concept_world_def session_run_def Let_def)
  then have run': "session_run (DeleteNode 1 False) (graph concept_world)
       = (Inr \<lparr>records = [], nodesDeleted = 1\<rparr>,
          snd (session_run (DeleteNode 1 False) (graph concept_world)))"
    by (metis prod.collapse)
  note 1 = delete_entity_missing_id [of concept_world 5 False Map.empty, OF on, THEN conjunct1,
             THEN mp, OF none]
  note 2 = delete_entity_missing_id [of concept_world 1 False Map.empty, OF on, THEN conjunct2,
             THEN spec, THEN spec, THEN mp, OF run', THEN conjunct1]
  from 2 have 3: "fst (delete_entity 1 False concept_world) =
       Inr \<lparr>de_success = True, de_id = 1, de_deleted = True\<rparr>"
    by simp
  have none': "5 \<notin> set (map nid (nodes (graph concept_world)))"
    by (simp add: concept_world_def)
  show ?thesis
    by (intro conjI) (rule on none' 1 [THEN conjunct1] 1 [THEN conjunct2] run 3)+
qed

section \<open>Knowledge links\<close>











section \<open>Searching the notes: results and count\<close>

text \<open>
  One level of the walk: in a directory without subdirectories the loop stops as soon as
  the results reach the limit, so it collects at most \<open>limit\<close> hits (one hit when the limit
  is zero, since the test comes after the first entry).
\<close>

lemma search_entries_flat:
  assumes "list_all (\<lambda>(name, n). \<not> isDirectory n) es"
    and "results = [] \<or> length results < limit"
  shows "length (search_entries cs inc q limit rel es results) \<le> max limit 1"
  using assms
proof (induction es arbitrary: results)
  case Nil
  then show ?case by auto
next
  case (Cons e es)
  obtain name n where e: "e = (name, n)"
    by (cases e)
  from Cons.prems(1) e have leaf: "\<not> isDirectory n" and rest: "list_all (\<lambda>(name, n). \<not> isDirectory n) es"
    by simp_all
  define results' where "results' =
    (case n of
       Dir _ \<Rightarrow> results @ searchInDir cs inc q limit (rel @ [name]) n
     | NoAccessDir \<Rightarrow> results @ searchInDir cs inc q limit (rel @ [name]) n
     | File text \<Rightarrow>
         (if ends_with ''.md'' name
          then (case scan_file cs inc q rel name text of
                  None \<Rightarrow> results
                | Some h \<Rightarrow> results @ [h])
          else results)
     | NoAccessFile \<Rightarrow> results)"
  have step: "search_entries cs inc q limit rel (e # es) results =
                (if length results' \<ge> limit then results'
                 else search_entries cs inc q limit rel es results')"
    by (simp add: e results'_def Let_def)
  have grow: "length results' \<le> Suc (length results)"
    using leaf by (auto simp: results'_def isDirectory_def split: node.splits option.splits)
  show ?case
  proof (cases "length results' \<ge> limit")
    case True
    then show ?thesis
      using step grow Cons.prems(2) by auto
  next
    case False
    then have "length results' < limit"
      by simp
    then have "length (search_entries cs inc q limit rel es results') \<le> max limit 1"
      using Cons.IH [OF rest] by blast
    then show ?thesis
      using step False by simp
  qed
qed

text \<open>
  C10. \<^verbatim>\<open>search_notes\<close> returns at most \<open>limit\<close> results, the first \<open>limit\<close> of what the
  walk collected, while \<^verbatim>\<open>count\<close> is the length of the whole collection. The limit is
  tested once per round of the loop of one directory: a directory without subdirectories
  yields at most \<open>limit\<close> hits (one when \<open>limit\<close> is zero), but what a subdirectory
  returns is appended whole before the test. In \<open>demo_world\<close>, six notes in three
  directories match: with limit 3 the walk stops after the second directory with four
  hits, so three results are returned with a count of four; with limit 10 it counts all six.
\<close>

theorem search_notes_count_before_truncation:
  "(\<forall>r. search_notes query case_sensitive include_content limit w = Inr r \<longrightarrow>
       length (sr_results r) \<le> limit
       \<and> sr_results r = take limit (walk_vault query case_sensitive include_content limit w)
       \<and> sr_count r = length (walk_vault query case_sensitive include_content limit w))
   \<and> (list_all (\<lambda>(name, n). \<not> isDirectory n) es \<longrightarrow>
       length (searchInDir case_sensitive include_content query limit rel (Dir es)) \<le> max limit 1)
   \<and> (\<exists>r. search_notes ''test'' False False 3 demo_world = Inr r
          \<and> length (sr_results r) = 3 \<and> sr_count r = 4)
   \<and> (\<exists>r. search_notes ''test'' False False 10 demo_world = Inr r
          \<and> length (sr_results r) = 6 \<and> sr_count r = 6)"
proof -
  have three: "length (walk_vault ''test'' False False 3 demo_world) = 4"
    by code_simp
  have ten: "length (walk_vault ''test'' False False 10 demo_world) = 6"
    by code_simp
  have flat: "length (searchInDir case_sensitive include_content query limit rel (Dir es)) \<le> max limit 1"
    if "list_all (\<lambda>(name, n). \<not> isDirectory n) es"
    using search_entries_flat [OF that, of "[]" limit case_sensitive include_content query rel]
    by simp
  show ?thesis
    using three ten flat by (auto simp: search_notes_def Let_def)
qed

theorem search_notes_count_before_truncation_witness:
  "(\<exists>r. search_notes ''test'' False False 3 demo_world = Inr r
        \<and> length (sr_results r) \<le> 3
        \<and> sr_results r = take 3 (walk_vault ''test'' False False 3 demo_world)
        \<and> sr_count r = length (walk_vault ''test'' False False 3 demo_world)
        \<and> length (sr_results r) = 3
        \<and> sr_count r = 4)
   \<and> list_all (\<lambda>(name, n). \<not> isDirectory n) demo_notes
   \<and> length (searchInDir False False ''test'' 1 [''a''] (Dir demo_notes)) = 1
   \<and> length (searchInDir False False ''test'' 1 [''a''] (Dir demo_notes)) \<le> max 1 1"
proof -
  obtain r where h: "search_notes ''test'' False False 3 demo_world = Inr r"
    by (simp add: search_notes_def Let_def)
  have four: "length (walk_vault ''test'' False False 3 demo_world) = 4"
    by code_simp
  have leaves: "list_all (\<lambda>(name, n). \<not> isDirectory n) demo_notes"
    by (simp add: demo_notes_def isDirectory_def)
  have one: "length (searchInDir False False ''test'' 1 [''a''] (Dir demo_notes)) = 1"
    by code_simp
  note 1 = search_notes_count_before_truncation [of "''test''" False False 3 demo_world,
             THEN conjunct1, THEN spec, THEN mp, OF h]
  note 2 = search_notes_count_before_truncation
             [of _ _ _ _ _ demo_notes, THEN conjunct2, THEN conjunct1, THEN mp, OF leaves,
              of False False "''test''" 1 "[''a'']"]
  have 3: "\<exists>r. search_notes ''test'' False False 3 demo_world = Inr r
        \<and> length (sr_results r) \<le> 3
        \<and> sr_results r = take 3 (walk_vault ''test'' False False 3 demo_world)
        \<and> sr_count r = length (walk_vault ''test'' False False 3 demo_world)
        \<and> length (sr_results r) = 3
        \<and> sr_count r = 4"
    using h 1 four by (intro exI [of _ r]) simp
  show ?thesis
    by (intro conjI) (rule 3 leaves one 2)+
qed

section \<open>Recalling memories\<close>

lemma insert_desc_length: "length (insert_desc k x xs) = Suc (length xs)"
  by (induction xs) auto

lemma order_by_desc_length: "length (order_by_desc k xs) = length xs"
  by (induction xs) (auto simp: order_by_desc_def insert_desc_length)

lemma insert_desc_set: "set (insert_desc k x xs) = insert x (set xs)"
  by (induction xs) auto

lemma insert_desc_sorted:
  "sorted_wrt (\<lambda>a b. k b \<le> k a) xs \<Longrightarrow> sorted_wrt (\<lambda>a b. k b \<le> k a) (insert_desc k x xs)"
  by (induction xs) (auto simp: insert_desc_set)

lemma order_by_desc_sorted: "sorted_wrt (\<lambda>a b. k b \<le> k a) (order_by_desc k xs)"
  by (induction xs) (auto simp: order_by_desc_def insert_desc_sorted)

lemma memory_rows_sorted:
  "sorted_wrt (\<lambda>a b. order_key (nm_importance b) \<le> order_key (nm_importance a))
     (map memory_of_row (map NodeRow (take limit
        (order_by_desc (\<lambda>v. order_key (nprops v ''importance'')) vs))))"
proof -
  have "sorted_wrt (\<lambda>a b. order_key (nprops b ''importance'') \<le> order_key (nprops a ''importance''))
          (take limit (order_by_desc (\<lambda>v. order_key (nprops v ''importance'')) vs))"
    by (rule sorted_wrt_take) (rule order_by_desc_sorted)
  then show ?thesis
    by (simp add: sorted_wrt_map memory_of_row_def row_properties_def)
qed

lemma neo4j_recall_sorted:
  "sorted_wrt (\<lambda>a b. order_key (nm_importance b) \<le> order_key (nm_importance a))
     (fst (neo4j_recall query type limit w))"
  using memory_rows_sorted
  by (simp add: neo4j_recall_def query_graph_def session_run_def)

lemma neo4j_recall_world: "snd (neo4j_recall query type limit w) = w"
  by (simp add: neo4j_recall_def query_graph_def session_run_def)

lemma neo4j_recall_offline: "\<not> online (graph w) \<Longrightarrow> fst (neo4j_recall query type limit w) = []"
  by (simp add: neo4j_recall_def query_graph_def session_run_def)

lemma obsidian_recall_no_vault:
  "isl (lookup_path (disk w) (path_join (VAULT_PATH w) [])) \<Longrightarrow> obsidian_recall query type limit w = []"
  by (auto simp: obsidian_recall_def search_notes_def walk_vault_def Let_def split: sum.splits)

lemma recall_memory_unfolded:
  "recall_memory query type limit w =
     (Inr \<lparr>rm_success = True, rm_query = query,
           rm_memories = take limit (map from_neo4j (fst (neo4j_recall query type limit w))
                                     @ map from_obsidian (obsidian_recall query type limit w)),
           rm_counts = \<lparr>cnt_neo4j = length (fst (neo4j_recall query type limit w)),
                        cnt_obsidian = length (obsidian_recall query type limit w),
                        cnt_total = length (fst (neo4j_recall query type limit w))
                                    + length (obsidian_recall query type limit w)\<rparr>\<rparr>, w)"
proof -
  obtain neo w1 where n: "neo4j_recall query type limit w = (neo, w1)"
    by (cases "neo4j_recall query type limit w")
  with neo4j_recall_world [of query type limit w] have "w1 = w"
    by simp
  with n show ?thesis
    by (simp add: recall_memory_def Let_def)
qed

lemma neo4j_recall_rows:
  "fst (neo4j_recall query type limit w) =
     (if online (graph w)
      then map (\<lambda>v. memory_of_row (NodeRow v))
             (take limit (order_by_desc (\<lambda>v. order_key (nprops v ''importance''))
                (filter (memory_matches query (if truthy type then type else None))
                   (nodes (graph w)))))
      else [])"
  by (simp add: neo4j_recall_def query_graph_def session_run_def comp_def)

lemma obsidian_recall_walk:
  "obsidian_recall query type limit w =
     filter (\<lambda>h. if \<not> truthy type then True else js_includes (''memory/'' @ the type) (h_path h))
       (take limit (walk_vault query False True limit w))"
  by (simp add: obsidian_recall_def search_notes_def Let_def)

text \<open>
  C4. Let \<open>neo\<close> be what the graph store holds for the query: the \<^verbatim>\<open>Memory\<close> nodes whose
  content contains it (and whose type is the one asked for, if any), ordered by importance,
  highest first, and cut to \<open>limit\<close>; nothing when the store does not answer. Let \<open>obs\<close>
  be the first \<open>limit\<close> notes the walk of the vault finds for the query, those outside
  \<^verbatim>\<open>memory/<type>\<close> left out when a type is asked for. Then the memories
  \<^verbatim>\<open>recall_memory\<close> returns are \<open>neo\<close>, each tagged \<^verbatim>\<open>neo4j\<close>, followed by \<open>obs\<close>, each
  tagged \<^verbatim>\<open>obsidian\<close>, cut to the first \<open>limit\<close>. Nothing is removed between the two
  sources: the length is the sum of both, capped by \<open>limit\<close>, and the counts report both.
\<close>

theorem recall_memory_concatenates:
  "\<exists>r neo obs.
       recall_memory query type limit w = (Inr r, w)
     \<and> neo = (if online (graph w)
              then map (\<lambda>v. memory_of_row (NodeRow v))
                     (take limit (order_by_desc (\<lambda>v. order_key (nprops v ''importance''))
                        (filter (memory_matches query (if truthy type then type else None))
                           (nodes (graph w)))))
              else [])
     \<and> obs = filter (\<lambda>h. if \<not> truthy type then True
                          else js_includes (''memory/'' @ the type) (h_path h))
               (take limit (walk_vault query False True limit w))
     \<and> rm_memories r = take limit (map from_neo4j neo @ map from_obsidian obs)
     \<and> map mi_source (rm_memories r)
         = take limit (replicate (length neo) ''neo4j'' @ replicate (length obs) ''obsidian'')
     \<and> sorted_wrt (\<lambda>a b. order_key (nm_importance b) \<le> order_key (nm_importance a)) neo
     \<and> length (rm_memories r) = min limit (length neo + length obs)
     \<and> rm_counts r = \<lparr>cnt_neo4j = length neo, cnt_obsidian = length obs,
                       cnt_total = length neo + length obs\<rparr>"
proof -
  have tags: "map mi_source (map from_neo4j xs @ map from_obsidian ys)
                = replicate (length xs) ''neo4j'' @ replicate (length ys) ''obsidian''" for xs ys
    by (simp add: map_replicate_const [symmetric] from_neo4j_def from_obsidian_def comp_def)
  show ?thesis
    unfolding recall_memory_unfolded
    apply (rule exI, rule exI [of _ "fst (neo4j_recall query type limit w)"],
           rule exI [of _ "obsidian_recall query type limit w"])
    apply (intro conjI)
           apply (rule refl)
          apply (rule neo4j_recall_rows)
         apply (rule obsidian_recall_walk)
        apply simp
       apply (simp only: memories_recalled.simps take_map [symmetric] tags)
      apply (rule neo4j_recall_sorted)
     apply (simp add: min.commute)
    apply simp
    done
qed

text \<open>
  A memory stored in both places is recalled twice, once from each source; of two stored
  memories the more important one comes first among the graph results, and the four
  memories recalled are the two graph results followed by the two notes.
\<close>

theorem recall_memory_concatenates_witness:
  "(\<exists>r. recall_memory ''milk'' None 10
           (snd (store_memory ''buy milk'' ''task'' [] [] (1 / 2) ''user'' demo_world))
         = (Inr r, snd (store_memory ''buy milk'' ''task'' [] [] (1 / 2) ''user'' demo_world))
        \<and> map mi_source (rm_memories r) = [''neo4j'', ''obsidian'']
        \<and> map mi_id (rm_memories r) = [Some (PStr ''mem_1704103200000_k3j9x0q2a''),
                                        Some (PStr ''mem_1704103200000_k3j9x0q2a.md'')]
        \<and> map mi_path (rm_memories r)
            = [None, Some ''memory/2024-01-01/mem_1704103200000_k3j9x0q2a.md'']
        \<and> rm_counts r = \<lparr>cnt_neo4j = 1, cnt_obsidian = 1, cnt_total = 2\<rparr>)
   \<and> (\<exists>r. fst (recall_memory ''milk'' None 10 two_memories) = Inr r
        \<and> map mi_source (rm_memories r) = [''neo4j'', ''neo4j'', ''obsidian'', ''obsidian'']
        \<and> map mi_content (take 2 (rm_memories r))
            = [Some (PStr ''more milk''), Some (PStr ''buy milk'')]
        \<and> map mi_importance (take 2 (rm_memories r))
            = [Some (PNum (9 / 10)), Some (PNum (1 / 5))])
   \<and> (\<exists>r. fst (recall_memory ''milk'' None 3 two_memories) = Inr r
        \<and> map mi_source (rm_memories r) = [''neo4j'', ''neo4j'', ''obsidian'']
        \<and> rm_counts r = \<lparr>cnt_neo4j = 2, cnt_obsidian = 2, cnt_total = 4\<rparr>)"
proof -
  define W where "W = snd (store_memory ''buy milk'' ''task'' [] [] (1 / 2) ''user'' demo_world)"
  let ?rows = "\<lambda>limit w. if online (graph w)
              then map (\<lambda>v. memory_of_row (NodeRow v))
                     (take limit (order_by_desc (\<lambda>v. order_key (nprops v ''importance''))
                        (filter (memory_matches ''milk'' (if truthy None then None else None))
                           (nodes (graph w)))))
              else []"
  let ?notes = "\<lambda>limit w. filter (\<lambda>h. if \<not> truthy (None :: string option) then True
                          else js_includes (''memory/'' @ the None) (h_path h))
               (take limit (walk_vault ''milk'' False True limit w))"
  have src1: "map mi_source (take 10 (map from_neo4j (?rows 10 W) @ map from_obsidian (?notes 10 W)))
              = [''neo4j'', ''obsidian'']"
    unfolding W_def by code_simp
  have ids1: "map mi_id (take 10 (map from_neo4j (?rows 10 W) @ map from_obsidian (?notes 10 W)))
              = [Some (PStr ''mem_1704103200000_k3j9x0q2a''),
                 Some (PStr ''mem_1704103200000_k3j9x0q2a.md'')]"
    unfolding W_def by code_simp
  have paths1: "map mi_path (take 10 (map from_neo4j (?rows 10 W) @ map from_obsidian (?notes 10 W)))
              = [None, Some ''memory/2024-01-01/mem_1704103200000_k3j9x0q2a.md'']"
    unfolding W_def by code_simp
  have lens: "length (?rows 10 W) = 1" "length (?notes 10 W) = 1"
    unfolding W_def by code_simp+
  from recall_memory_concatenates [of "''milk''" None 10 W]
  obtain r where r: "recall_memory ''milk'' None 10 W = (Inr r, W)"
    and m: "rm_memories r = take 10 (map from_neo4j (?rows 10 W) @ map from_obsidian (?notes 10 W))"
    and c: "rm_counts r = \<lparr>cnt_neo4j = length (?rows 10 W), cnt_obsidian = length (?notes 10 W),
                            cnt_total = length (?rows 10 W) + length (?notes 10 W)\<rparr>"
    by (elim exE conjE, hypsubst) (rule that, assumption+)
  have first: "\<exists>r. recall_memory ''milk'' None 10 W = (Inr r, W)
        \<and> map mi_source (rm_memories r) = [''neo4j'', ''obsidian'']
        \<and> map mi_id (rm_memories r) = [Some (PStr ''mem_1704103200000_k3j9x0q2a''),
                                        Some (PStr ''mem_1704103200000_k3j9x0q2a.md'')]
        \<and> map mi_path (rm_memories r)
            = [None, Some ''memory/2024-01-01/mem_1704103200000_k3j9x0q2a.md'']
        \<and> rm_counts r = \<lparr>cnt_neo4j = 1, cnt_obsidian = 1, cnt_total = 2\<rparr>"
    apply (rule exI [of _ r])
    apply (simp only: m c src1 ids1 paths1 lens)
    apply (simp add: r)
    done
  have second: "\<exists>r. fst (recall_memory ''milk'' None 10 two_memories) = Inr r
        \<and> map mi_source (rm_memories r) = [''neo4j'', ''neo4j'', ''obsidian'', ''obsidian'']
        \<and> map mi_content (take 2 (rm_memories r))
            = [Some (PStr ''more milk''), Some (PStr ''buy milk'')]
        \<and> map mi_importance (take 2 (rm_memories r))
            = [Some (PNum (9 / 10)), Some (PNum (1 / 5))]"
  proof -
    have src: "map mi_source (take 10 (map from_neo4j (?rows 10 two_memories)
                                       @ map from_obsidian (?notes 10 two_memories)))
               = [''neo4j'', ''neo4j'', ''obsidian'', ''obsidian'']"
      by code_simp
    have txt2: "map mi_content (take 2 (take 10 (map from_neo4j (?rows 10 two_memories)
                                       @ map from_obsidian (?notes 10 two_memories))))
               = [Some (PStr ''more milk''), Some (PStr ''buy milk'')]"
      by code_simp
    have imp2: "map mi_importance (take 2 (take 10 (map from_neo4j (?rows 10 two_memories)
                                       @ map from_obsidian (?notes 10 two_memories))))
               = [Some (PNum (9 / 10)), Some (PNum (1 / 5))]"
      by code_simp
    from recall_memory_concatenates [of "''milk''" None 10 two_memories]
    obtain r2 where r2: "recall_memory ''milk'' None 10 two_memories = (Inr r2, two_memories)"
      and m2: "rm_memories r2 = take 10 (map from_neo4j (?rows 10 two_memories)
                                          @ map from_obsidian (?notes 10 two_memories))"
      by (elim exE conjE, hypsubst) (rule that, assumption+)
    show ?thesis
      apply (rule exI [of _ r2])
      apply (simp only: m2 src txt2 imp2)
      apply (simp add: r2)
      done
  qed
  have third: "\<exists>r. fst (recall_memory ''milk'' None 3 two_memories) = Inr r
        \<and> map mi_source (rm_memories r) = [''neo4j'', ''neo4j'', ''obsidian'']
        \<and> rm_counts r = \<lparr>cnt_neo4j = 2, cnt_obsidian = 2, cnt_total = 4\<rparr>"
  proof -
    have src: "map mi_source (take 3 (map from_neo4j (?rows 3 two_memories)
                                       @ map from_obsidian (?notes 3 two_memories)))
               = [''neo4j'', ''neo4j'', ''obsidian'']"
      by code_simp
    have lens3: "length (?rows 3 two_memories) = 2" "length (?notes 3 two_memories) = 2"
      by code_simp+
    from recall_memory_concatenates [of "''milk''" None 3 two_memories]
    obtain r3 where r3: "recall_memory ''milk'' None 3 two_memories = (Inr r3, two_memories)"
      and m3: "rm_memories r3 = take 3 (map from_neo4j (?rows 3 two_memories)
                                          @ map from_obsidian (?notes 3 two_memories))"
      and c3: "rm_counts r3 = \<lparr>cnt_neo4j = length (?rows 3 two_memories),
                               cnt_obsidian = length (?notes 3 two_memories),
                               cnt_total = length (?rows 3 two_memories)
                                           + length (?notes 3 two_memories)\<rparr>"
      by (elim exE conjE, hypsubst) (rule that, assumption+)
    show ?thesis
      apply (rule exI [of _ r3])
      apply (simp only: m3 c3 src lens3)
      apply (simp add: r3)
      done
  qed
  show ?thesis
    unfolding W_def [symmetric]
    by (intro conjI) (rule first second third)+
qed

section \<open>Recall after a store, with a backend down\<close>

text \<open>What the handlers of the graph adapter keep: the connection state and the nodes there are.\<close>

lemma create_entity_keeps:
  "online (graph (snd (create_entity label name properties w))) = online (graph w)
   \<and> set (nodes (graph w)) \<subseteq> set (nodes (graph (snd (create_entity label name properties w))))"
  by (auto simp: create_entity_def session_run_def Let_def)

lemma create_relationship_keeps:
  "online (graph (snd (create_relationship from_label from_name to_label to_name ty properties w)))
     = online (graph w)
   \<and> set (nodes (graph w))
       \<subseteq> set (nodes (graph (snd (create_relationship from_label from_name to_label to_name ty
                                      properties w))))"
  by (auto simp: create_relationship_def session_run_def Let_def split: list.splits row.splits)

lemma link_tags_keeps:
  "online (graph (link_tags m tags w)) = online (graph w)
   \<and> set (nodes (graph w)) \<subseteq> set (nodes (graph (link_tags m tags w)))"
proof (induction tags arbitrary: w)
  case Nil
  then show ?case by simp
next
  case (Cons tag tags)
  obtain r1 w1 where c1: "create_entity ''Tag'' tag Map.empty w = (r1, w1)"
    by (cases "create_entity ''Tag'' tag Map.empty w")
  obtain r2 w2 where c2: "create_relationship ''Memory'' m ''Tag'' tag ''TAGGED_WITH'' Map.empty w1 = (r2, w2)"
    by (cases "create_relationship ''Memory'' m ''Tag'' tag ''TAGGED_WITH'' Map.empty w1")
  have k1: "online (graph w1) = online (graph w)" "set (nodes (graph w)) \<subseteq> set (nodes (graph w1))"
    using create_entity_keeps [of "''Tag''" tag Map.empty w] c1 by simp_all
  have k2: "online (graph w2) = online (graph w1)" "set (nodes (graph w1)) \<subseteq> set (nodes (graph w2))"
    using create_relationship_keeps [of "''Memory''" m "''Tag''" tag "''TAGGED_WITH''" Map.empty w1] c2
    by simp_all
  show ?case
  proof (cases r1)
    case (Inl e)
    then show ?thesis
      using c1 k1 Cons.IH [of w1] by auto
  next
    case (Inr x)
    then show ?thesis
      using c1 c2 k1 k2 Cons.IH [of w2] by auto
  qed
qed

lemma link_entities_keeps:
  "online (graph (link_entities m entities w)) = online (graph w)
   \<and> set (nodes (graph w)) \<subseteq> set (nodes (graph (link_entities m entities w)))"
proof (induction entities arbitrary: w)
  case Nil
  then show ?case by simp
next
  case (Cons entity entities)
  obtain r1 w1 where c1: "create_relationship ''Memory'' m (or_else (er_label entity) ''Entity'')
                            (er_name entity) ''MENTIONS'' Map.empty w = (r1, w1)"
    by (cases "create_relationship ''Memory'' m (or_else (er_label entity) ''Entity'')
                 (er_name entity) ''MENTIONS'' Map.empty w")
  have k1: "online (graph w1) = online (graph w)" "set (nodes (graph w)) \<subseteq> set (nodes (graph w1))"
    using create_relationship_keeps [of "''Memory''" m "or_else (er_label entity) ''Entity''"
            "er_name entity" "''MENTIONS''" Map.empty w] c1 by simp_all
  show ?case
    using c1 k1 Cons.IH [of w1] by auto
qed

lemma write_note_graph: "graph (snd (write_note filename body fm create_dirs w)) = graph w"
  by (simp add: write_note_def Let_def split: sum.splits)

lemma create_note_graph: "graph (snd (create_note filename title body tags template w)) = graph w"
  by (simp add: create_note_def Let_def write_note_graph)

lemma store_in_obsidian_graph: "graph (store_in_obsidian memoryId dateStr text type tags w) = graph w"
proof -
  have "store_in_obsidian memoryId dateStr text type tags w =
          snd (create_note (''memory/'' @ dateStr @ ''/'' @ memoryId @ ''.md'')
                 (Some (capitalize type @ '': '' @ take 50 text @ ''...''))
                 text (''memory'' # type # tags) ''log'' w)"
    by (simp add: store_in_obsidian_def Let_def split: prod.splits)
  then show ?thesis
    by (simp add: create_note_graph)
qed

text \<open>After a store on an online graph there is a \<^verbatim>\<open>Memory\<close> node with the content and the type.\<close>

lemma store_memory_node:
  assumes "online (graph w)"
  shows "online (graph (snd (store_memory text type tags entities importance source w)))
         \<and> (\<exists>v. v \<in> set (nodes (graph (snd (store_memory text type tags entities importance source w))))
                \<and> ''Memory'' \<in> set (labels v)
                \<and> nprops v ''content'' = Some (PStr text)
                \<and> nprops v ''type'' = Some (PStr type))"
proof -
  define memoryId where "memoryId = ''mem_'' @ epoch_ms (now w) @ ''_'' @ random36 (now w)"
  define memoryName where "memoryName = ''Memory_'' @ memoryId"
  define properties where "properties =
    [''id'' \<mapsto> PStr memoryId, ''content'' \<mapsto> PStr text, ''type'' \<mapsto> PStr type,
     ''importance'' \<mapsto> PNum importance, ''source'' \<mapsto> PStr source,
     ''createdAt'' \<mapsto> PStr (iso (now w))]"
  define v where "v = new_node w ''Memory'' memoryName properties"
  define w1 where "w1 = w\<lparr>graph := (graph w)\<lparr>nodes := nodes (graph w) @ [v],
                                              next_id := Suc (next_id (graph w))\<rparr>\<rparr>"
  define w2 where "w2 = link_entities memoryName entities (link_tags memoryName tags w1)"
  have made: "\<exists>r. create_entity ''Memory'' memoryName properties w = (Inr r, w1)"
    unfolding w1_def v_def by (rule exI, rule create_entity_online [OF assms])
  then have neo: "store_in_neo4j memoryId memoryName text type tags entities importance source
                    (iso (now w)) w = w2"
    by (auto simp: store_in_neo4j_def properties_def w2_def)
  have w1: "online (graph w1)" "v \<in> set (nodes (graph w1))"
    using assms by (simp_all add: w1_def)
  have w2: "online (graph w2)" "v \<in> set (nodes (graph w2))"
    using w1 link_tags_keeps [of memoryName tags w1]
      link_entities_keeps [of memoryName entities "link_tags memoryName tags w1"]
    by (auto simp: w2_def)
  have v: "''Memory'' \<in> set (labels v)" "nprops v ''content'' = Some (PStr text)"
    "nprops v ''type'' = Some (PStr type)"
    by (simp_all add: v_def new_node_def properties_def)
  have "graph (snd (store_memory text type tags entities importance source w)) = graph w2"
    unfolding store_memory_def Let_def snd_conv store_in_obsidian_graph
    unfolding neo [unfolded memoryName_def memoryId_def]
    by (rule refl)
  then show ?thesis
    using w2 v by auto
qed

lemma match_memory_finds:
  assumes "online g" and "v \<in> set (nodes g)" and "memory_matches q ty v" and "0 < limit"
  shows "\<exists>res. session_run (MatchMemory q ty limit) g = (Inr res, g) \<and> records res \<noteq> []"
proof -
  have "filter (memory_matches q ty) (nodes g) \<noteq> []"
    using assms(2,3) by (auto simp: filter_empty_conv)
  then have "length (order_by_desc (\<lambda>v. order_key (nprops v ''importance''))
                      (filter (memory_matches q ty) (nodes g))) > 0"
    by (simp add: order_by_desc_length)
  then have "take limit (order_by_desc (\<lambda>v. order_key (nprops v ''importance''))
                      (filter (memory_matches q ty) (nodes g))) \<noteq> []"
    using assms(4) by (cases limit) auto
  then show ?thesis
    using assms(1) by (simp add: session_run_def)
qed

lemma neo4j_recall_finds:
  assumes "online (graph w)" and "v \<in> set (nodes (graph w))"
    and "memory_matches query (if truthy type then type else None) v" and "0 < limit"
  shows "fst (neo4j_recall query type limit w) \<noteq> []"
proof -
  from match_memory_finds [OF assms]
  obtain res where "session_run (MatchMemory query (if truthy type then type else None) limit) (graph w)
                      = (Inr res, graph w)" "records res \<noteq> []"
    by blast
  then show ?thesis
    by (simp add: neo4j_recall_def query_graph_def)
qed

text \<open>
  C3. \<^verbatim>\<open>recall_memory\<close> always returns a result. When the graph search fails (store
  offline), the memories are the notes the walk of the vault finds for the query (the first
  \<open>limit\<close>, those outside \<^verbatim>\<open>memory/<type>\<close> left out when a type is asked for), each as
  an \<^verbatim>\<open>obsidian\<close> memory. When the vault cannot be opened, the memories are the matching
  \<^verbatim>\<open>Memory\<close> nodes of the graph, by importance and cut to \<open>limit\<close>, each as a \<^verbatim>\<open>neo4j\<close>
  memory. And after \<^verbatim>\<open>store_memory\<close> on an online graph, a recall whose query occurs in the
  stored content (with a positive limit, and no type filter or the stored type) returns a
  memory tagged \<^verbatim>\<open>neo4j\<close>, whatever became of the note and whatever the state \<open>d\<close> of the
  disk at the time of the recall.
\<close>

theorem recall_memory_survives_backend_failure:
  "(\<exists>r. recall_memory query type limit w = (Inr r, w)
        \<and> (\<not> online (graph w) \<longrightarrow>
             rm_memories r =
               take limit (map from_obsidian
                 (filter (\<lambda>h. if \<not> truthy type then True
                               else js_includes (''memory/'' @ the type) (h_path h))
                    (take limit (walk_vault query False True limit w)))))
        \<and> (isl (lookup_path (disk w) (path_join (VAULT_PATH w) [])) \<longrightarrow>
             rm_memories r =
               take limit (map from_neo4j
                 (if online (graph w)
                  then map (\<lambda>v. memory_of_row (NodeRow v))
                         (take limit (order_by_desc (\<lambda>v. order_key (nprops v ''importance''))
                            (filter (memory_matches query (if truthy type then type else None))
                               (nodes (graph w)))))
                  else []))))
   \<and> (online (graph w) \<and> js_includes query stored_text \<and> 0 < limit
        \<and> (truthy type \<longrightarrow> type = Some stored_type) \<longrightarrow>
        (\<exists>r. fst (recall_memory query type limit
                    ((snd (store_memory stored_text stored_type tags entities importance source w))
                       \<lparr>disk := d\<rparr>)) = Inr r
              \<and> ''neo4j'' \<in> set (map mi_source (rm_memories r))))"
proof (intro conjI impI)
  have off: "take limit (map from_neo4j (fst (neo4j_recall query type limit w))
                         @ map from_obsidian (obsidian_recall query type limit w))
             = take limit (map from_obsidian
                 (filter (\<lambda>h. if \<not> truthy type then True
                               else js_includes (''memory/'' @ the type) (h_path h))
                    (take limit (walk_vault query False True limit w))))"
    if "\<not> online (graph w)"
    by (simp only: neo4j_recall_offline [OF that] obsidian_recall_walk list.map append_Nil)
  have novault: "take limit (map from_neo4j (fst (neo4j_recall query type limit w))
                         @ map from_obsidian (obsidian_recall query type limit w))
             = take limit (map from_neo4j
                 (if online (graph w)
                  then map (\<lambda>v. memory_of_row (NodeRow v))
                         (take limit (order_by_desc (\<lambda>v. order_key (nprops v ''importance''))
                            (filter (memory_matches query (if truthy type then type else None))
                               (nodes (graph w)))))
                  else []))"
    if "isl (lookup_path (disk w) (path_join (VAULT_PATH w) []))"
    by (simp only: obsidian_recall_no_vault [OF that] neo4j_recall_rows list.map append_Nil2)
  show "\<exists>r. recall_memory query type limit w = (Inr r, w)
        \<and> (\<not> online (graph w) \<longrightarrow>
             rm_memories r =
               take limit (map from_obsidian
                 (filter (\<lambda>h. if \<not> truthy type then True
                               else js_includes (''memory/'' @ the type) (h_path h))
                    (take limit (walk_vault query False True limit w)))))
        \<and> (isl (lookup_path (disk w) (path_join (VAULT_PATH w) [])) \<longrightarrow>
             rm_memories r =
               take limit (map from_neo4j
                 (if online (graph w)
                  then map (\<lambda>v. memory_of_row (NodeRow v))
                         (take limit (order_by_desc (\<lambda>v. order_key (nprops v ''importance''))
                            (filter (memory_matches query (if truthy type then type else None))
                               (nodes (graph w)))))
                  else [])))"
    unfolding recall_memory_unfolded
    apply (rule exI, intro conjI impI, rule refl)
     apply (simp only: memories_recalled.simps, erule off)
    apply (simp only: memories_recalled.simps, erule novault)
    done
next
  assume h: "online (graph w) \<and> js_includes query stored_text \<and> 0 < limit
        \<and> (truthy type \<longrightarrow> type = Some stored_type)"
  define w' where "w' = (snd (store_memory stored_text stored_type tags entities importance source w))\<lparr>disk := d\<rparr>"
  from h store_memory_node [of w stored_text stored_type tags entities importance source]
  obtain v where on: "online (graph w')" and v: "v \<in> set (nodes (graph w'))"
    and lab: "''Memory'' \<in> set (labels v)" and body: "nprops v ''content'' = Some (PStr stored_text)"
    and ty: "nprops v ''type'' = Some (PStr stored_type)"
    by (auto simp: w'_def)
  have "memory_matches query (if truthy type then type else None) v"
    using h lab body ty by (auto simp: memory_matches_def)
  from neo4j_recall_finds [OF on v this] h
  have "fst (neo4j_recall query type limit w') \<noteq> []"
    by simp
  then obtain m ms where neo: "fst (neo4j_recall query type limit w') = m # ms"
    by (cases "fst (neo4j_recall query type limit w')") auto
  obtain k where k: "limit = Suc k"
    using h by (cases limit) auto
  have "take limit (map from_neo4j (m # ms) @ map from_obsidian (obsidian_recall query type limit w'))
          = from_neo4j m # take k (map from_neo4j ms
                                   @ map from_obsidian (obsidian_recall query type limit w'))"
    by (simp add: k)
  then have "''neo4j'' \<in> set (map mi_source (take limit (map from_neo4j (fst (neo4j_recall query type limit w'))
                 @ map from_obsidian (obsidian_recall query type limit w'))))"
    by (simp add: neo from_neo4j_def)
  then show "\<exists>r. fst (recall_memory query type limit
                    ((snd (store_memory stored_text stored_type tags entities importance source w))
                       \<lparr>disk := d\<rparr>)) = Inr r
              \<and> ''neo4j'' \<in> set (map mi_source (rm_memories r))"
    unfolding w'_def [symmetric] recall_memory_unfolded by auto
qed

theorem recall_memory_survives_backend_failure_witness:
  "\<not> online (graph offline_world)
   \<and> (\<exists>r. recall_memory ''test'' None 10 offline_world = (Inr r, offline_world)
          \<and> map mi_source (rm_memories r)
              = [''obsidian'', ''obsidian'', ''obsidian'', ''obsidian'', ''obsidian'', ''obsidian'']
          \<and> map mi_content (rm_memories r)
              = [Some (PStr ''a test''), Some (PStr ''a test''), Some (PStr ''a test''),
                 Some (PStr ''a test''), Some (PStr ''a test''), Some (PStr ''a test'')])
   \<and> isl (lookup_path (disk (snd (store_memory ''buy milk'' ''task'' [''home''] [] (1 / 2) ''user''
                                    demo_world)\<lparr>disk := File []\<rparr>))
            (path_join (VAULT_PATH (snd (store_memory ''buy milk'' ''task'' [''home''] [] (1 / 2) ''user''
                                    demo_world)\<lparr>disk := File []\<rparr>)) []))
   \<and> (\<exists>r. fst (recall_memory ''milk'' (Some ''task'') 10
                 ((snd (store_memory ''buy milk'' ''task'' [''home''] [] (1 / 2) ''user'' demo_world))
                    \<lparr>disk := File []\<rparr>)) = Inr r
          \<and> map mi_source (rm_memories r) = [''neo4j'']
          \<and> map mi_content (rm_memories r) = [Some (PStr ''buy milk'')])
   \<and> online (graph demo_world) \<and> js_includes ''milk'' ''buy milk'' \<and> 0 < (10::nat)
   \<and> truthy (Some ''task'')
   \<and> (\<exists>r. fst (recall_memory ''milk'' (Some ''task'') 10
                 ((snd (store_memory ''buy milk'' ''task'' [''home''] [] (1 / 2) ''user'' demo_world))
                    \<lparr>disk := File []\<rparr>)) = Inr r
          \<and> ''neo4j'' \<in> set (map mi_source (rm_memories r)))"
proof -
  define W where "W = (snd (store_memory ''buy milk'' ''task'' [''home''] [] (1 / 2) ''user'' demo_world))
                        \<lparr>disk := File []\<rparr>"
  have off: "\<not> online (graph offline_world)"
    by (simp add: offline_world_def empty_graph_def)
  have novault: "isl (lookup_path (disk W) (path_join (VAULT_PATH W) []))"
    unfolding W_def by code_simp
  have on: "online (graph demo_world)"
    by (simp add: demo_world_def empty_graph_def)
  have inc: "js_includes ''milk'' ''buy milk''"
    by (simp add: js_includes_def)
  have pos: "0 < (10::nat)"
    by simp
  have tr: "truthy (Some ''task'')"
    by (simp add: truthy_def)
  have hyp: "online (graph demo_world) \<and> js_includes ''milk'' ''buy milk'' \<and> 0 < (10::nat)
        \<and> (truthy (Some ''task'') \<longrightarrow> Some ''task'' = Some ''task'')"
    using on inc by simp
  have notes_src: "map mi_source (take 10 (map from_obsidian
                 (filter (\<lambda>h. if \<not> truthy (None :: string option) then True
                               else js_includes (''memory/'' @ the None) (h_path h))
                    (take 10 (walk_vault ''test'' False True 10 offline_world)))))
             = [''obsidian'', ''obsidian'', ''obsidian'', ''obsidian'', ''obsidian'', ''obsidian'']"
    by code_simp
  have notes_text: "map mi_content (take 10 (map from_obsidian
                 (filter (\<lambda>h. if \<not> truthy (None :: string option) then True
                               else js_includes (''memory/'' @ the None) (h_path h))
                    (take 10 (walk_vault ''test'' False True 10 offline_world)))))
             = [Some (PStr ''a test''), Some (PStr ''a test''), Some (PStr ''a test''),
                Some (PStr ''a test''), Some (PStr ''a test''), Some (PStr ''a test'')]"
    by code_simp
  have rows_src: "map mi_source (take 10 (map from_neo4j
                 (if online (graph W)
                  then map (\<lambda>v. memory_of_row (NodeRow v))
                         (take 10 (order_by_desc (\<lambda>v. order_key (nprops v ''importance''))
                            (filter (memory_matches ''milk''
                                       (if truthy (Some ''task'') then Some ''task'' else None))
                               (nodes (graph W)))))
                  else [])))
             = [''neo4j'']"
    unfolding W_def by code_simp
  have rows_text: "map mi_content (take 10 (map from_neo4j
                 (if online (graph W)
                  then map (\<lambda>v. memory_of_row (NodeRow v))
                         (take 10 (order_by_desc (\<lambda>v. order_key (nprops v ''importance''))
                            (filter (memory_matches ''milk''
                                       (if truthy (Some ''task'') then Some ''task'' else None))
                               (nodes (graph W)))))
                  else [])))
             = [Some (PStr ''buy milk'')]"
    unfolding W_def by code_simp
  from recall_memory_survives_backend_failure
         [of "''test''" None 10 offline_world, THEN conjunct1]
  obtain r where r: "recall_memory ''test'' None 10 offline_world = (Inr r, offline_world)"
    and a: "\<not> online (graph offline_world) \<longrightarrow>
             rm_memories r =
               take 10 (map from_obsidian
                 (filter (\<lambda>h. if \<not> truthy (None :: string option) then True
                               else js_includes (''memory/'' @ the None) (h_path h))
                    (take 10 (walk_vault ''test'' False True 10 offline_world))))"
    by (elim exE conjE) (rule that, assumption+)
  note a' = a [THEN mp, OF off]
  have 1: "\<exists>r. recall_memory ''test'' None 10 offline_world = (Inr r, offline_world)
          \<and> map mi_source (rm_memories r)
              = [''obsidian'', ''obsidian'', ''obsidian'', ''obsidian'', ''obsidian'', ''obsidian'']
          \<and> map mi_content (rm_memories r)
              = [Some (PStr ''a test''), Some (PStr ''a test''), Some (PStr ''a test''),
                 Some (PStr ''a test''), Some (PStr ''a test''), Some (PStr ''a test'')]"
    apply (rule exI [of _ r])
    apply (simp only: a' notes_src notes_text)
    apply (simp add: r)
    done
  from recall_memory_survives_backend_failure
         [of "''milk''" "Some ''task''" 10 W, THEN conjunct1]
  obtain r' where r': "recall_memory ''milk'' (Some ''task'') 10 W = (Inr r', W)"
    and b: "isl (lookup_path (disk W) (path_join (VAULT_PATH W) [])) \<longrightarrow>
             rm_memories r' =
               take 10 (map from_neo4j
                 (if online (graph W)
                  then map (\<lambda>v. memory_of_row (NodeRow v))
                         (take 10 (order_by_desc (\<lambda>v. order_key (nprops v ''importance''))
                            (filter (memory_matches ''milk''
                                       (if truthy (Some ''task'') then Some ''task'' else None))
                               (nodes (graph W)))))
                  else []))"
    by (elim exE conjE) (rule that, assumption+)
  note b' = b [THEN mp, OF novault]
  have 2: "\<exists>r. fst (recall_memory ''milk'' (Some ''task'') 10 W) = Inr r
          \<and> map mi_source (rm_memories r) = [''neo4j'']
          \<and> map mi_content (rm_memories r) = [Some (PStr ''buy milk'')]"
    apply (rule exI [of _ r'])
    apply (simp only: b' rows_src rows_text)
    apply (simp add: r')
    done
  note 3 = recall_memory_survives_backend_failure
             [where query = "''milk''" and type = "Some ''task''" and limit = 10 and w = demo_world
                and stored_text = "''buy milk''" and stored_type = "''task''"
                and tags = "[''home'']" and entities = "[]" and importance = "1 / 2"
                and source = "''user''" and d = "File []",
              THEN conjunct2, THEN mp, OF hyp]
  show ?thesis
    unfolding W_def [symmetric]
    by (intro conjI) (rule off 1 novault 2 on inc pos tr 3 [folded W_def])+
qed

end
